theory Spec2Isabelle
  imports Main
begin

section \<open>The Quasar configuration file reader (app-vite/lib/quasar-config-file.js)\<close>

text \<open>
  A shallow embedding of the module: the pure helpers (\<open>formatPublicPath\<close>,
  \<open>parseAssetProperty\<close>, \<open>getUniqueArray\<close>, \<open>uniquePathFilter\<close>), the address negotiator
  \<open>onAddress\<close>, the normalisation \<open>#computeConfig\<close> and the watcher callback of
  \<open>#buildAndWatch\<close>. JavaScript strings are modelled as \<open>string\<close>; every character the
  module inspects (\<open>/\<close>, \<open>~\<close>, \<open>Q\<close>, \<open>A-Z\<close>, \<open>q-\<close>, \<open>http(s)://\<close>) is ASCII.

  The configuration is followed at the fields the properties below are about, and a value
  of the user has the type its field is declared with here (a path is a string, a port a
  number, a list a list). What the module logs, which collaborator it calls and where the
  process exits are recorded as events, in order. A collaborator the source calls outside
  a \<open>try\<close> block is taken to return; the ones called inside one may throw, and each
  \<open>catch\<close>, early \<open>return\<close> and exit of the source is a branch of the model.
\<close>

subsection \<open>Strings and the two regular expressions\<close>

definition startsWith :: "string \<Rightarrow> string \<Rightarrow> bool" where
  "startsWith s p = (take (length p) s = p)"

definition endsWith :: "string \<Rightarrow> string \<Rightarrow> bool" where
  "endsWith s p = (length p \<le> length s \<and> drop (length s - length p) s = p)"

text \<open>
  Truthiness of a value that is \<open>undefined\<close> or a string: the empty string is falsy.
\<close>

definition truthyString :: "string option \<Rightarrow> bool" where
  "truthyString v = (case v of None \<Rightarrow> False | Some s \<Rightarrow> s \<noteq> [])"

text \<open>
  Truthiness of a value that is \<open>undefined\<close> or a number: zero is falsy.
\<close>

definition truthyNumber :: "int option \<Rightarrow> bool" where
  "truthyNumber v = (case v of None \<Rightarrow> False | Some n \<Rightarrow> n \<noteq> 0)"

text \<open>
  \<^verbatim>\<open>const urlRegex = /^http(s)?:\/\//i\<close> (line 18), as its \<open>test\<close> method. The flag \<open>i\<close>
  makes the four letters and the optional \<open>s\<close> case-insensitive.
\<close>

fun urlRegex :: "string \<Rightarrow> bool" where
  "urlRegex (h # t # t' # p # rest) =
     ((h = CHR ''h'' \<or> h = CHR ''H'') \<and> (t = CHR ''t'' \<or> t = CHR ''T'') \<and>
      (t' = CHR ''t'' \<or> t' = CHR ''T'') \<and> (p = CHR ''p'' \<or> p = CHR ''P'') \<and>
      (startsWith rest ''://'' \<or>
       (case rest of
          [] \<Rightarrow> False
        | s # rest' \<Rightarrow> (s = CHR ''s'' \<or> s = CHR ''S'') \<and> startsWith rest' ''://'')))"
| "urlRegex _ = False"

text \<open>
  \<^verbatim>\<open>const quasarComponentRE = /^(Q[A-Z]|q-)/\<close> (line 32), as its \<open>test\<close> method on a
  string.
\<close>

definition isUpperAZ :: "char \<Rightarrow> bool" where
  "isUpperAZ c = (c \<in> set ''ABCDEFGHIJKLMNOPQRSTUVWXYZ'')"

fun quasarComponentRE :: "string \<Rightarrow> bool" where
  "quasarComponentRE (a # b # rest) =
     ((a = CHR ''Q'' \<and> isUpperAZ b) \<or> (a = CHR ''q'' \<and> b = CHR ''-''))"
| "quasarComponentRE _ = False"

subsection \<open>formatPublicPath (lines 56-74)\<close>

text \<open>
  The argument is \<open>undefined\<close> (\<open>None\<close>) or a string. The trailing separator is added
  before the URL test, the leading one only after it.
\<close>

definition formatPublicPath :: "string option \<Rightarrow> string" where
  "formatPublicPath publicPath =
     (case publicPath of
        None \<Rightarrow> ''/''
      | Some p \<Rightarrow>
          if p = [] then ''/''
          else
            let p1 = (if \<not> endsWith p ''/'' then p @ ''/'' else p)
            in if urlRegex p1 then p1
               else if \<not> startsWith p1 ''/'' then ''/'' @ p1
               else p1)"

subsection \<open>getUniqueArray (lines 102-104)\<close>

text \<open>
  \<^verbatim>\<open>Array.from(new Set(original))\<close>: the elements are added to a set one by one, an
  element already present is skipped, and a set lists its elements in insertion order.
\<close>

definition setAdd :: "'a list \<Rightarrow> 'a \<Rightarrow> 'a list" where
  "setAdd s x = (if x \<in> set s then s else s @ [x])"

definition getUniqueArray :: "'a list \<Rightarrow> 'a list" where
  "getUniqueArray original = foldl setAdd [] original"

subsection \<open>parseAssetProperty and uniquePathFilter (lines 85-108)\<close>

text \<open>
  An entry of \<open>css\<close> or \<open>boot\<close> is a string or an object with an optional string \<open>path\<close>
  and further attributes; \<open>null\<close> and \<open>undefined\<close> entries are \<open>None\<close> in the list.
\<close>

datatype asset =
  AssetString string
| AssetObject "string option" "(string \<times> string) list"

record parsedAsset =
  path :: "string option"
  attrs :: "(string \<times> string) list"

text \<open>
  The expression both branches of \<open>parseAssetProperty\<close> apply to a string:
  \<^verbatim>\<open>asset[ 0 ] === '~' ? asset.substring(1) : prefix + `/${ asset }`\<close>.
\<close>

definition resolveAssetPath :: "string \<Rightarrow> string \<Rightarrow> string" where
  "resolveAssetPath prefix a =
     (case a of
        [] \<Rightarrow> prefix @ ''/'' @ a
      | c # rest \<Rightarrow> if c = CHR ''~'' then rest else prefix @ ''/'' @ a)"

fun parseAssetProperty :: "string \<Rightarrow> asset \<Rightarrow> parsedAsset" where
  "parseAssetProperty prefix (AssetString a) =
     \<lparr>path = Some (resolveAssetPath prefix a), attrs = []\<rparr>"
| "parseAssetProperty prefix (AssetObject p as) =
     \<lparr>path = (case p of None \<Rightarrow> None | Some q \<Rightarrow> Some (resolveAssetPath prefix q)),
      attrs = as\<rparr>"

text \<open>\<open>Array.prototype.indexOf\<close>: the first index of the value, \<open>-1\<close> when absent.\<close>

fun indexOf :: "'a list \<Rightarrow> 'a \<Rightarrow> int" where
  "indexOf [] v = - 1"
| "indexOf (x # xs) v =
     (if x = v then 0 else (let i = indexOf xs v in if i < 0 then - 1 else i + 1))"

definition uniquePathFilter :: "parsedAsset \<Rightarrow> nat \<Rightarrow> parsedAsset list \<Rightarrow> bool" where
  "uniquePathFilter v index self = (indexOf (map path self) (path v) = int index)"

text \<open>\<open>Array.prototype.filter\<close> with a callback of value, index and the array itself.\<close>

definition filterIndexed :: "('a \<Rightarrow> nat \<Rightarrow> 'a list \<Rightarrow> bool) \<Rightarrow> 'a list \<Rightarrow> 'a list" where
  "filterIndexed f xs = map fst (filter (\<lambda>(v, i). f v i xs) (zip xs [0 ..< length xs]))"

text \<open>\<^verbatim>\<open>.filter(_ => _)\<close>: the truthy entries, i.e. objects and non-empty strings.\<close>

fun truthyAssets :: "asset option list \<Rightarrow> asset list" where
  "truthyAssets [] = []"
| "truthyAssets (None # xs) = truthyAssets xs"
| "truthyAssets (Some (AssetString a) # xs) =
     (if a = [] then truthyAssets xs else AssetString a # truthyAssets xs)"
| "truthyAssets (Some (AssetObject p as) # xs) = AssetObject p as # truthyAssets xs"

text \<open>
  The chain of lines 624-636, for \<open>css\<close> with the prefix \<open>src/css\<close> and for \<open>boot\<close> with
  the prefix \<open>boot\<close>:
  \<^verbatim>\<open>filter(_ => _).map(parseAssetProperty(prefix)).filter(asset => asset.path).filter(uniquePathFilter)\<close>,
  run only on a non-empty array.
\<close>

definition parseAssets :: "string \<Rightarrow> asset option list \<Rightarrow> parsedAsset list" where
  "parseAssets prefix entries =
     (if length entries > 0
      then filterIndexed uniquePathFilter
             (filter (\<lambda>asset. truthyString (path asset))
                (map (parseAssetProperty prefix) (truthyAssets entries)))
      else [])"

subsection \<open>Context, options and configuration\<close>

text \<open>
  Modelled from the spec: the Context (\<open>ctx\<close>, built outside this module) names one active
  target among a fixed set and carries the dev flag; \<open>ctx.mode[m]\<close> is set for the active
  target \<open>ctx.modeName\<close> only.
\<close>

datatype modeName = Spa | Ssr | Pwa | Electron | Cordova | Capacitor | BexMode

record ctx =
  modeName :: modeName
  dev :: bool

definition mode :: "ctx \<Rightarrow> modeName \<Rightarrow> bool" where
  "mode c m = (modeName c = m)"

text \<open>
  The constructor's \<open>#opts\<close> (lines 179-185): the host and port of the command line
  (\<open>undefined\<close> when not given) and whether \<open>verifyAddress === true\<close>.
\<close>

record opts =
  opts_host :: "string option"
  opts_port :: "int option"
  verifyAddress :: bool

text \<open>\<open>defaultPortMapping\<close> (lines 23-30) has no entry for the browser extension mode.\<close>

fun defaultPortMapping :: "modeName \<Rightarrow> int option" where
  "defaultPortMapping Spa = Some 9000"
| "defaultPortMapping Ssr = Some 9100"
| "defaultPortMapping Pwa = Some 9200"
| "defaultPortMapping Electron = Some 9300"
| "defaultPortMapping Cordova = Some 9400"
| "defaultPortMapping Capacitor = Some 9500"
| "defaultPortMapping BexMode = None"

text \<open>A \<open>{ host, port }\<close> pair.\<close>

type_synonym addr = "string option \<times> int option"

text \<open>
  The value a user's factory resolves to. \<open>sameAsObject v\<close> is \<^verbatim>\<open>Object(v) === v\<close>:
  \<open>Object\<close> returns its argument when that is an object (arrays and functions included)
  and a fresh object otherwise.
\<close>

datatype jsval =
  JUndefined
| JNull
| JBoolean bool
| JNumber int
| JString string
| JSymbol string
| JBigInt int
| JArray "jsval list"
| JObject "(string \<times> jsval) list"
| JFunction string

fun sameAsObject :: "jsval \<Rightarrow> bool" where
  "sameAsObject (JArray xs) = True"
| "sameAsObject (JObject kvs) = True"
| "sameAsObject (JFunction f) = True"
| "sameAsObject v = False"

text \<open>The primitive values of the language, by their \<open>typeof\<close>; \<open>null\<close> stands apart.\<close>

fun isPrimitive :: "jsval \<Rightarrow> bool" where
  "isPrimitive JUndefined = True"
| "isPrimitive (JBoolean b) = True"
| "isPrimitive (JNumber n) = True"
| "isPrimitive (JString s) = True"
| "isPrimitive (JSymbol d) = True"
| "isPrimitive (JBigInt n) = True"
| "isPrimitive v = False"

text \<open>
  \<open>rawQuasarConf\<close>: the user's configuration merged over the defaults of lines 456-511,
  read at the fields the normalisation below looks at. \<open>animations\<close> is the string
  \<open>'all'\<close> or a list; \<open>framework.config.loading\<close> and \<open>.notify\<close> are falsy (\<open>None\<close>) or an
  object whose \<open>spinner\<close> is \<open>undefined\<close> or a string; \<open>raw_ssr_pwa\<close> is \<open>ssr.pwa === true\<close>.
\<close>

datatype animations = AllAnimations | AnimationNames "string list"

datatype spinnerConf = SpinnerConf (spinner: "string option")

record rawQuasarConf =
  raw_css :: "asset option list"
  raw_boot :: "asset option list"
  raw_extras :: "string list"
  raw_animations :: animations
  raw_components :: "string list"
  raw_directives :: "string list"
  raw_plugins :: "string list"
  raw_loading :: "spinnerConf option"
  raw_notify :: "spinnerConf option"
  raw_devServer_host :: "string option"
  raw_devServer_port :: "int option"
  raw_ssr_pwa :: bool
  raw_publicPath :: "string option"
  raw_workboxMode :: "string option"

text \<open>\<open>cfg\<close>, the normalised configuration, at the same fields.\<close>

record quasarConf =
  css :: "parsedAsset list"
  boot :: "parsedAsset list"
  extras :: "string list"
  animations :: "string list"
  framework_components :: "string list"
  framework_directives :: "string list"
  framework_plugins :: "string list"
  devServer_host :: "string option"
  devServer_port :: "int option"
  build_publicPath :: string

subsection \<open>The collaborators of one build cycle\<close>

text \<open>
  What the code outside this module does during one cycle: esbuild's diagnostics, the
  import of the compiled file, the user's factory, webpack-merge over the defaults, the
  animations module, the extension hook (\<open>None\<close> when an extension throws), the local host
  list of \<open>utils/net.js\<close>, the external IP, the port probe and the files validation.
\<close>

datatype factory = Throws | Resolves jsval

datatype exported = NotFunction | Function factory

datatype imported = ImportThrows | Imported exported

datatype neterr =
  ERROR_NETWORK_PORT_NOT_AVAIL
| ERROR_NETWORK_ADDRESS_NOT_AVAIL
| OtherNetworkError

datatype probe = OpenPort int | ProbeThrows neterr

record env =
  compileErrors :: nat
  importResult :: imported
  mergeDefaults :: "jsval \<Rightarrow> rawQuasarConf"
  animationsModule :: "string list"
  runAppExtensionHook :: "rawQuasarConf \<Rightarrow> rawQuasarConf option"
  isLocalHost :: "string \<Rightarrow> bool"
  getExternalIP :: string
  findClosestOpenPort :: "int option \<Rightarrow> string option \<Rightarrow> probe"
  appFilesValidations :: bool

subsection \<open>The state of a session and what a cycle emits\<close>

text \<open>
  The failures the module reports, each with a message of its own: the compile errors of
  lines 323-334, the import error of lines 350-368, and in \<open>computeConfig\<close> the export that
  is not a function (404-415), the factory that throws (422-437), the result that is not an
  object (439-450), the extension that throws (531-541), the network error (602-611), the
  files validation (797-804) and the workbox mode (914-924). An event is a call of \<open>log\<close>,
  \<open>warn\<close>, \<open>fatal\<close>, \<open>tip\<close> or \<open>console.error\<close>, a call of the IP discovery or of the port
  probe with its arguments, or \<open>process.exit\<close>.
\<close>

datatype failure =
  CompileFailure
| ImportFailure
| NotAFunction
| RuntimeFailure
| NotAnObject
| ExtensionFailure
| NetworkFailure
| ValidationFailure
| WorkboxFailure

datatype event =
  LogReadingAgain
| LogScheduled
| Warn failure
| Fatal failure
| ConsoleError
| TipPortParameter
| TipExplicitPort
| CallGetExternalIP
| CallFindClosestOpenPort "int option" "string option"
| WarnClosestPort int
| WarnNetwork neterr
| ProcessExit

text \<open>
  The private fields \<open>#address\<close> and \<open>#isWatching\<close>, the watcher's \<open>isFirst\<close>, the module
  variables \<open>cachedExternalHost\<close> and \<open>addressRunning\<close>, whether the temporary compiled
  file is on disk, whether the process has exited, everything logged or called so far,
  the value \<open>firstBuildIsDone\<close> was resolved with and the arguments of the calls of the
  (debounced) \<open>opts.watch\<close> callback.
\<close>

record session =
  isFirst :: bool
  isWatching :: bool
  address :: "(addr \<times> addr) option"
  addressRunning :: bool
  cachedExternalHost :: "string option"
  tempFile :: bool
  terminated :: bool
  events :: "event list"
  firstBuildIsDone :: "quasarConf option"
  watchCalls :: "quasarConf list"

definition emit :: "event \<Rightarrow> session \<Rightarrow> session" where
  "emit e s = s\<lparr>events := events s @ [e]\<rparr>"

definition warn :: "failure \<Rightarrow> session \<Rightarrow> session" where
  "warn f s = emit (Warn f) s"

text \<open>
  Modelled from the spec: \<open>fatal\<close> of \<open>utils/logger.js\<close> is the fatal-reporting collaborator;
  it reports and terminates the process, so nothing after it runs.
\<close>

definition fatal :: "failure \<Rightarrow> session \<Rightarrow> session" where
  "fatal f s = (emit (Fatal f) s)\<lparr>terminated := True\<rparr>"

definition removeSync :: "session \<Rightarrow> session" where
  "removeSync s = s\<lparr>tempFile := False\<rparr>"

text \<open>
  What an asynchronous function of the module comes to: the process exited inside it, it
  returned \<open>undefined\<close> (or \<open>null\<close>), or it returned a value.
\<close>

datatype 'a ret = Exited | Undefined | Value 'a

text \<open>
  The pattern \<^verbatim>\<open>if (failOnError === true) { fatal(msg, 'FAIL') }  warn(msg); return\<close>.
\<close>

definition failWith :: "failure \<Rightarrow> bool \<Rightarrow> session \<Rightarrow> 'a ret \<times> session" where
  "failWith f failOnError s =
     (if failOnError then (Exited, fatal f s) else (Undefined, warn f s))"

definition andThen ::
  "'a ret \<times> session \<Rightarrow> ('a \<Rightarrow> session \<Rightarrow> 'b ret \<times> session) \<Rightarrow> 'b ret \<times> session" where
  "andThen r k =
     (case r of
        (Exited, s) \<Rightarrow> (Exited, s)
      | (Undefined, s) \<Rightarrow> (Undefined, s)
      | (Value v, s) \<Rightarrow> k v s)"

subsection \<open>onAddress (lines 110-162)\<close>

text \<open>
  \<open>isLocalHost env h\<close> stands for \<^verbatim>\<open>localHostList.includes(h.toLowerCase())\<close>. The probe
  \<open>findClosestOpenPort\<close> is the only call inside the \<open>try\<close>; when it throws, the warning is
  printed and the process exits unless an earlier call of \<open>onAddress\<close> has succeeded.
\<close>

text \<open>Lines 113-125: the host to probe, and the cache of the external IP.\<close>

definition needsExternalIP :: "env \<Rightarrow> addr \<Rightarrow> modeName \<Rightarrow> bool" where
  "needsExternalIP env a m =
     (m \<in> set [Cordova, Capacitor] \<and>
      (\<not> truthyString (fst a) \<or> (case fst a of None \<Rightarrow> False | Some h \<Rightarrow> isLocalHost env h)))"

definition probedHost :: "env \<Rightarrow> addr \<Rightarrow> modeName \<Rightarrow> session \<Rightarrow> string option" where
  "probedHost env a m s =
     (if needsExternalIP env a m
      then (if truthyString (cachedExternalHost s) then cachedExternalHost s
            else Some (getExternalIP env))
      else fst a)"

definition discoverExternalIP :: "env \<Rightarrow> addr \<Rightarrow> modeName \<Rightarrow> session \<Rightarrow> session" where
  "discoverExternalIP env a m s =
     (if needsExternalIP env a m \<and> \<not> truthyString (cachedExternalHost s)
      then (emit CallGetExternalIP s)\<lparr>cachedExternalHost := Some (getExternalIP env)\<rparr>
      else s)"

text \<open>Lines 137-158: the \<open>catch\<close> block.\<close>

definition onProbeError :: "neterr \<Rightarrow> session \<Rightarrow> addr ret \<times> session" where
  "onProbeError e s =
     (let s1 = (if e = OtherNetworkError
                then emit ConsoleError (emit (WarnNetwork e) s)
                else emit (WarnNetwork e) s)
      in if \<not> addressRunning s1
         then (Exited, (emit ProcessExit s1)\<lparr>terminated := True\<rparr>)
         else (Undefined, s1))"

definition onAddress :: "env \<Rightarrow> addr \<Rightarrow> modeName \<Rightarrow> session \<Rightarrow> addr ret \<times> session" where
  "onAddress env a m s =
     (let host = probedHost env a m s;
          port = snd a;
          s1 = emit (CallFindClosestOpenPort port host) (discoverExternalIP env a m s)
      in case findClosestOpenPort env port host of
           OpenPort openPort \<Rightarrow>
             (if port \<noteq> Some openPort
              then (Value (host, Some openPort),
                    (emit (WarnClosestPort openPort) s1)\<lparr>addressRunning := True\<rparr>)
              else (Value (host, port), s1\<lparr>addressRunning := True\<rparr>))
         | ProbeThrows e \<Rightarrow> onProbeError e s1)"

subsection \<open>computeConfig (lines 403-1087)\<close>

text \<open>Lines 404-452: the export must be a function and must resolve to an object.\<close>

definition loadUserCfg :: "exported \<Rightarrow> bool \<Rightarrow> session \<Rightarrow> jsval ret \<times> session" where
  "loadUserCfg quasarConfigFn failOnError s =
     (case quasarConfigFn of
        NotFunction \<Rightarrow> failWith NotAFunction failOnError (removeSync s)
      | Function Throws \<Rightarrow> failWith RuntimeFailure failOnError (emit ConsoleError s)
      | Function (Resolves userCfg) \<Rightarrow>
          if \<not> sameAsObject userCfg then failWith NotAnObject failOnError (removeSync s)
          else (Value userCfg, removeSync s))"

text \<open>
  Lines 456-541: the merge over the defaults, the animations module for \<open>'all'\<close>, and the
  \<open>extendQuasarConf\<close> hook of the extensions, which may change the configuration.
\<close>

definition mergedConf :: "env \<Rightarrow> jsval \<Rightarrow> rawQuasarConf" where
  "mergedConf env userCfg =
     (let rawQuasarConf = mergeDefaults env userCfg
      in if raw_animations rawQuasarConf = AllAnimations
         then rawQuasarConf\<lparr>raw_animations := AnimationNames (animationsModule env)\<rparr>
         else rawQuasarConf)"

definition extendConf :: "env \<Rightarrow> jsval \<Rightarrow> bool \<Rightarrow> session \<Rightarrow> rawQuasarConf ret \<times> session" where
  "extendConf env userCfg failOnError s =
     (case runAppExtensionHook env (mergedConf env userCfg) of
        None \<Rightarrow> failWith ExtensionFailure failOnError (emit ConsoleError s)
      | Some extended \<Rightarrow> (Value extended, s))"

text \<open>Lines 561-582: the host and the port the dev server is asked to use.\<close>

definition requestedHost :: "opts \<Rightarrow> rawQuasarConf \<Rightarrow> string option" where
  "requestedHost opts raw =
     (if truthyString (opts_host opts) then opts_host opts
      else if \<not> truthyString (raw_devServer_host raw) then Some ''0.0.0.0''
      else raw_devServer_host raw)"

definition requestedPort :: "ctx \<Rightarrow> opts \<Rightarrow> rawQuasarConf \<Rightarrow> int option" where
  "requestedPort ctx opts raw =
     (if truthyNumber (opts_port opts) then opts_port opts
      else if \<not> truthyNumber (raw_devServer_port raw)
      then (case defaultPortMapping (modeName ctx) of
              None \<Rightarrow> None
            | Some p \<Rightarrow> Some (p + (if mode ctx Ssr \<and> raw_ssr_pwa raw then 50 else 0)))
      else raw_devServer_port raw)"

definition portTip :: "opts \<Rightarrow> rawQuasarConf \<Rightarrow> session \<Rightarrow> session" where
  "portTip opts raw s =
     (if truthyNumber (opts_port opts) then emit TipPortParameter s
      else if \<not> truthyNumber (raw_devServer_port raw) then s
      else emit TipExplicitPort s)"

text \<open>
  Lines 592-621, the \<open>else\<close> branch: the negotiation of a pair that is not the cached one.
  Modelled from the spec: in \<^verbatim>\<open>merge({ open: true }, cfg.devServer, to)\<close> the negotiated
  result overwrites host and port.
\<close>

definition negotiate ::
  "ctx \<Rightarrow> opts \<Rightarrow> env \<Rightarrow> addr \<Rightarrow> bool \<Rightarrow> session \<Rightarrow> addr ret \<times> session" where
  "negotiate ctx opts env a failOnError s =
     (case (if verifyAddress opts then onAddress env a (modeName ctx) s else (Value a, s)) of
        (Exited, s1) \<Rightarrow> (Exited, s1)
      | (Undefined, s1) \<Rightarrow> failWith NetworkFailure failOnError s1
      | (Value to, s1) \<Rightarrow> (Value to, s1\<lparr>address := Some (a, to)\<rparr>))"

text \<open>Lines 584-621: the cached negotiation is reused for the pair it was made for.\<close>

definition resolveAddress ::
  "ctx \<Rightarrow> opts \<Rightarrow> env \<Rightarrow> addr \<Rightarrow> bool \<Rightarrow> session \<Rightarrow> addr ret \<times> session" where
  "resolveAddress ctx opts env a failOnError s =
     (case address s of
        None \<Rightarrow> negotiate ctx opts env a failOnError s
      | Some (from, to) \<Rightarrow>
          if fst from = fst a \<and> snd from = snd a then (Value to, s)
          else negotiate ctx opts env a failOnError s)"

text \<open>
  Lines 559-622: the host and port of \<open>cfg.devServer\<close> after the block, which runs in
  development and outside the browser extension mode only.
\<close>

definition devServer ::
  "ctx \<Rightarrow> opts \<Rightarrow> env \<Rightarrow> rawQuasarConf \<Rightarrow> bool \<Rightarrow> session \<Rightarrow> addr ret \<times> session" where
  "devServer ctx opts env raw failOnError s =
     (if dev ctx \<and> \<not> mode ctx BexMode
      then resolveAddress ctx opts env (requestedHost opts raw, requestedPort ctx opts raw)
             failOnError (portTip opts raw s)
      else (Value (raw_devServer_host raw, raw_devServer_port raw), s))"

text \<open>
  Lines 650-665: a spinner named like a Quasar component is pushed to the components.
  \<open>RegExp.prototype.test\<close> reads \<open>undefined\<close> as the string \<open>undefined\<close>, which does not
  match.
\<close>

definition pushSpinner :: "spinnerConf option \<Rightarrow> string list \<Rightarrow> string list" where
  "pushSpinner conf components =
     (case conf of
        None \<Rightarrow> components
      | Some c \<Rightarrow>
          (case spinner c of
             None \<Rightarrow> components
           | Some name \<Rightarrow> if quasarComponentRE name then components @ [name] else components))"

text \<open>
  Lines 642-644. When an extension has put the string \<open>'all'\<close> back, the set is built from
  its characters.
\<close>

definition uniqueAnimations :: "animations \<Rightarrow> string list" where
  "uniqueAnimations a =
     (case a of
        AllAnimations \<Rightarrow> getUniqueArray (map (\<lambda>c. [c]) ''all'')
      | AnimationNames xs \<Rightarrow> if length xs > 0 then getUniqueArray xs else xs)"

text \<open>Lines 773-776.\<close>

definition publicPath :: "ctx \<Rightarrow> string option \<Rightarrow> string" where
  "publicPath ctx configured =
     (if truthyString configured \<and> modeName ctx \<in> set [Spa, Pwa, Ssr]
      then formatPublicPath configured
      else if modeName ctx \<in> set [Capacitor, Cordova, Electron, BexMode] then []
      else ''/'')"

text \<open>
  Lines 624-669 and 773-776: the tracked fields of \<open>cfg\<close>, from the extended configuration
  and the dev server's address.
\<close>

definition normalizeConf :: "ctx \<Rightarrow> rawQuasarConf \<Rightarrow> addr \<Rightarrow> quasarConf" where
  "normalizeConf ctx raw a =
     \<lparr>css = parseAssets ''src/css'' (raw_css raw),
      boot = parseAssets ''boot'' (raw_boot raw),
      extras = (if length (raw_extras raw) > 0 then getUniqueArray (raw_extras raw)
                else raw_extras raw),
      animations = uniqueAnimations (raw_animations raw),
      framework_components =
        getUniqueArray (pushSpinner (raw_notify raw) (pushSpinner (raw_loading raw) (raw_components raw))),
      framework_directives = getUniqueArray (raw_directives raw),
      framework_plugins = getUniqueArray (raw_plugins raw),
      devServer_host = fst a,
      devServer_port = snd a,
      build_publicPath = publicPath ctx (raw_publicPath raw)\<rparr>"

text \<open>
  Lines 905-924: in PWA mode (the target itself, or SSR with \<open>ssr.pwa === true\<close>, line 838)
  the workbox mode, \<open>GenerateSW\<close> by default, must be one of two.
\<close>

definition invalidWorkbox :: "ctx \<Rightarrow> rawQuasarConf \<Rightarrow> bool" where
  "invalidWorkbox ctx raw =
     ((mode ctx Pwa \<or> (mode ctx Ssr \<and> raw_ssr_pwa raw)) \<and>
      (case raw_workboxMode raw of None \<Rightarrow> ''GenerateSW'' | Some w \<Rightarrow> w)
        \<notin> set [''GenerateSW'', ''InjectManifest''])"

text \<open>Lines 797-804 and 905-924: the two gates after the normalisation.\<close>

definition validate ::
  "ctx \<Rightarrow> env \<Rightarrow> rawQuasarConf \<Rightarrow> addr \<Rightarrow> bool \<Rightarrow> session \<Rightarrow> quasarConf ret \<times> session" where
  "validate ctx env raw a failOnError s =
     (if \<not> appFilesValidations env then failWith ValidationFailure failOnError s
      else if invalidWorkbox ctx raw then failWith WorkboxFailure failOnError s
      else (Value (normalizeConf ctx raw a), s))"

text \<open>Lines 454-1087: what follows once the factory has resolved to an object.\<close>

definition normalizeUserCfg ::
  "ctx \<Rightarrow> opts \<Rightarrow> env \<Rightarrow> bool \<Rightarrow> jsval \<Rightarrow> session \<Rightarrow> quasarConf ret \<times> session" where
  "normalizeUserCfg ctx opts env failOnError userCfg s =
     andThen (extendConf env userCfg failOnError s) (\<lambda>raw s1.
     andThen (devServer ctx opts env raw failOnError s1) (\<lambda>a s2.
     validate ctx env raw a failOnError s2))"

definition computeConfig ::
  "ctx \<Rightarrow> opts \<Rightarrow> env \<Rightarrow> exported \<Rightarrow> bool \<Rightarrow> session \<Rightarrow> quasarConf ret \<times> session" where
  "computeConfig ctx opts env quasarConfigFn failOnError s =
     andThen (loadUserCfg quasarConfigFn failOnError s)
       (normalizeUserCfg ctx opts env failOnError)"

subsection \<open>The watcher of buildAndWatch (lines 297-399)\<close>

text \<open>\<open>build.onStart\<close>, lines 309-315.\<close>

definition onStart :: "session \<Rightarrow> session" where
  "onStart s = (if \<not> isFirst s then emit LogReadingAgain s else s)"

text \<open>
  Modelled from the spec: the Script Compiler (esbuild) writes the artifact to the
  transient path when the compile has no errors, before the \<open>onEnd\<close> callbacks run.
\<close>

definition esbuildWrites :: "env \<Rightarrow> session \<Rightarrow> session" where
  "esbuildWrites env s = (if compileErrors env = 0 then s\<lparr>tempFile := True\<rparr> else s)"

text \<open>\<open>build.onEnd\<close>, lines 317-389.\<close>

definition onEnd :: "ctx \<Rightarrow> opts \<Rightarrow> env \<Rightarrow> session \<Rightarrow> session" where
  "onEnd ctx opts env s =
     (if \<not> isFirst s \<and> \<not> isWatching s then s
      else if compileErrors env \<noteq> 0
      then (if isFirst s then fatal CompileFailure (removeSync s)
            else warn CompileFailure (removeSync s))
      else
        (case importResult env of
           ImportThrows \<Rightarrow>
             (if isFirst s then fatal ImportFailure (emit ConsoleError s)
              else warn ImportFailure (emit ConsoleError s))
         | Imported quasarConfigFn \<Rightarrow>
             (case computeConfig ctx opts env quasarConfigFn (isFirst s) s of
                (Exited, s1) \<Rightarrow> s1
              | (Undefined, s1) \<Rightarrow> s1
              | (Value quasarConf, s1) \<Rightarrow>
                  if isFirst s1
                  then s1\<lparr>isFirst := False, firstBuildIsDone := Some quasarConf\<rparr>
                  else (emit LogScheduled s1)\<lparr>watchCalls := watchCalls s1 @ [quasarConf]\<rparr>)))"

text \<open>One rebuild of the watcher; nothing runs once the process has exited.\<close>

definition buildCycle :: "ctx \<Rightarrow> opts \<Rightarrow> env \<Rightarrow> session \<Rightarrow> session" where
  "buildCycle ctx opts env s =
     (if terminated s then s else onEnd ctx opts env (esbuildWrites env (onStart s)))"

text \<open>The public \<open>watch()\<close>, lines 239-241.\<close>

definition watch :: "session \<Rightarrow> session" where
  "watch s = s\<lparr>isWatching := True\<rparr>"

subsection \<open>Reference notions the properties are stated with\<close>

text \<open>
  Deduplication by path that keeps the first occurrence, written as a recursion: the head
  stays and every later entry with the head's path goes.
\<close>

fun dedupKeepFirst :: "parsedAsset list \<Rightarrow> parsedAsset list" where
  "dedupKeepFirst [] = []"
| "dedupKeepFirst (x # xs) = x # dedupKeepFirst (filter (\<lambda>y. path y \<noteq> path x) xs)"

text \<open>
  The first check a build cycle fails, read off the cycle's inputs in the order in which
  \<open>onEnd\<close> and \<open>computeConfig\<close> make their checks; \<open>None\<close> when every check passes.
\<close>

definition cycleFailure :: "ctx \<Rightarrow> opts \<Rightarrow> env \<Rightarrow> session \<Rightarrow> failure option" where
  "cycleFailure ctx opts env s =
     (if compileErrors env \<noteq> 0 then Some CompileFailure
      else
        (case importResult env of
           ImportThrows \<Rightarrow> Some ImportFailure
         | Imported NotFunction \<Rightarrow> Some NotAFunction
         | Imported (Function Throws) \<Rightarrow> Some RuntimeFailure
         | Imported (Function (Resolves userCfg)) \<Rightarrow>
             if \<not> sameAsObject userCfg then Some NotAnObject
             else
               (case runAppExtensionHook env (mergedConf env userCfg) of
                  None \<Rightarrow> Some ExtensionFailure
                | Some raw \<Rightarrow>
                    (case fst (devServer ctx opts env raw (isFirst s) (removeSync s)) of
                       Value a \<Rightarrow>
                         if \<not> appFilesValidations env then Some ValidationFailure
                         else if invalidWorkbox ctx raw then Some WorkboxFailure
                         else None
                     | Exited \<Rightarrow> Some NetworkFailure
                     | Undefined \<Rightarrow> Some NetworkFailure))))"

text \<open>
  What the stages after the factory call leave alone: the watcher's flags, the temporary
  file and what has been delivered. A stage is \<open>framed\<close> when it keeps these and the process
  has exited afterwards exactly when it had before or the stage ended in the exit.
\<close>

definition keeps :: "session \<Rightarrow> session \<Rightarrow> bool" where
  "keeps s s' =
     (isFirst s' = isFirst s \<and> isWatching s' = isWatching s \<and> tempFile s' = tempFile s \<and>
      firstBuildIsDone s' = firstBuildIsDone s \<and> watchCalls s' = watchCalls s)"

definition framed :: "session \<Rightarrow> 'a ret \<times> session \<Rightarrow> bool" where
  "framed s r = (keeps s (snd r) \<and> terminated (snd r) = (terminated s \<or> fst r = Exited))"

text \<open>
  The tracked fields of the defaults tree of lines 456-511, and the session state the
  constructor and \<open>#buildAndWatch\<close> start from.
\<close>

definition baseDefaults :: rawQuasarConf where
  "baseDefaults =
     \<lparr>raw_css = [], raw_boot = [], raw_extras = [], raw_animations = AnimationNames [],
      raw_components = [], raw_directives = [], raw_plugins = [],
      raw_loading = None, raw_notify = None,
      raw_devServer_host = None, raw_devServer_port = None,
      raw_ssr_pwa = False, raw_publicPath = None, raw_workboxMode = None\<rparr>"

definition initialSession :: session where
  "initialSession =
     \<lparr>isFirst = True, isWatching = False, address = None, addressRunning = False,
      cachedExternalHost = None, tempFile = False, terminated = False, events = [],
      firstBuildIsDone = None, watchCalls = []\<rparr>"

text \<open>
  A sample development session of a single-page app, with collaborators that succeed:
  the factory resolves to an empty object, no extension changes anything, every requested
  port is open and the files validation passes.
\<close>

definition sampleCtx :: ctx where
  "sampleCtx = \<lparr>modeName = Spa, dev = True\<rparr>"

definition sampleOpts :: opts where
  "sampleOpts = \<lparr>opts_host = None, opts_port = None, verifyAddress = True\<rparr>"

definition sampleEnv :: env where
  "sampleEnv =
     \<lparr>compileErrors = 0,
      importResult = Imported (Function (Resolves (JObject []))),
      mergeDefaults = (\<lambda>userCfg. baseDefaults),
      animationsModule = [],
      runAppExtensionHook = (\<lambda>raw. Some raw),
      isLocalHost = (\<lambda>h. h \<in> set [''0.0.0.0'', ''localhost'', ''127.0.0.1'']),
      getExternalIP = ''192.168.0.10'',
      findClosestOpenPort =
        (\<lambda>port host. case port of None \<Rightarrow> ProbeThrows OtherNetworkError | Some p \<Rightarrow> OpenPort p),
      appFilesValidations = True\<rparr>"

section \<open>Properties\<close>

subsection \<open>Deduplication of lists\<close>

lemma foldl_setAdd_distinct: "distinct acc \<Longrightarrow> distinct (foldl setAdd acc xs)"
  by (induction xs arbitrary: acc) (auto simp: setAdd_def)

lemma foldl_setAdd_set: "set (foldl setAdd acc xs) = set acc \<union> set xs"
  by (induction xs arbitrary: acc) (auto simp: setAdd_def)

lemma foldl_setAdd_filter:
  "foldl setAdd acc xs = acc @ foldl setAdd [] (filter (\<lambda>y. y \<notin> set acc) xs)"
proof (induction xs arbitrary: acc rule: length_induct)
  case (1 xs)
  show ?case
  proof (cases xs)
    case Nil
    then show ?thesis by simp
  next
    case (Cons x ys)
    let ?f = "filter (\<lambda>y. y \<notin> set acc) ys"
    have short: "length ys < length xs" "length ?f < length xs"
      using Cons by (simp_all add: less_Suc_eq_le)
    show ?thesis
    proof (cases "x \<in> set acc")
      case True
      then show ?thesis using 1 short(1) Cons by (simp add: setAdd_def)
    next
      case False
      have "foldl setAdd acc xs = foldl setAdd (acc @ [x]) ys"
        using False Cons by (simp add: setAdd_def)
      also have "\<dots> = (acc @ [x]) @ foldl setAdd [] (filter (\<lambda>y. y \<notin> set (acc @ [x])) ys)"
        using 1 short(1) by blast
      also have "filter (\<lambda>y. y \<notin> set (acc @ [x])) ys = filter (\<lambda>y. y \<notin> set [x]) ?f"
        by (simp add: conj_commute)
      also have "(acc @ [x]) @ foldl setAdd [] (filter (\<lambda>y. y \<notin> set [x]) ?f)
          = acc @ foldl setAdd [x] ?f"
        using 1 short(2) by (metis append.assoc)
      also have "foldl setAdd [x] ?f = foldl setAdd [] (filter (\<lambda>y. y \<notin> set acc) xs)"
        using False Cons by (simp add: setAdd_def)
      finally show ?thesis .
    qed
  qed
qed

lemma getUniqueArray_Cons: "getUniqueArray (x # xs) = x # getUniqueArray (removeAll x xs)"
proof -
  have "getUniqueArray (x # xs) = foldl setAdd [x] xs"
    by (simp add: getUniqueArray_def setAdd_def)
  also have "\<dots> = [x] @ foldl setAdd [] (filter (\<lambda>y. y \<notin> set [x]) xs)"
    by (rule foldl_setAdd_filter)
  also have "filter (\<lambda>y. y \<notin> set [x]) xs = removeAll x xs"
    by (induction xs) auto
  finally show ?thesis by (simp add: getUniqueArray_def)
qed

lemma foldl_setAdd_id: "distinct (acc @ xs) \<Longrightarrow> foldl setAdd acc xs = acc @ xs"
  by (induction xs arbitrary: acc) (auto simp: setAdd_def)

lemma getUniqueArray_distinct: "distinct (getUniqueArray xs)"
  by (simp add: getUniqueArray_def foldl_setAdd_distinct)

lemma getUniqueArray_set: "set (getUniqueArray xs) = set xs"
  by (simp add: getUniqueArray_def foldl_setAdd_set)

lemma getUniqueArray_id: "distinct xs \<Longrightarrow> getUniqueArray xs = xs"
  using foldl_setAdd_id [of "[]" xs] by (simp add: getUniqueArray_def)

lemma getUniqueArray_idem: "getUniqueArray (getUniqueArray xs) = getUniqueArray xs"
  by (simp add: getUniqueArray_id getUniqueArray_distinct)

text \<open>
  C8. \<open>getUniqueArray\<close> removes exact duplicates and keeps the first occurrences in their
  order: the list \<open>[a, b, a, c, b]\<close> becomes \<open>[a, b, c]\<close>, the result has no duplicates and the
  same elements, the head of a list stays in front and the rest is the deduplication of
  the tail without the head, and a second application changes nothing. The normalised
  \<open>extras\<close>, \<open>animations\<close> and \<open>framework.components\<close>, \<open>.directives\<close> and \<open>.plugins\<close> are the
  results of \<open>getUniqueArray\<close>.
\<close>

theorem getUniqueArray_dedup:
  "getUniqueArray [''a'', ''b'', ''a'', ''c'', ''b''] = [''a'', ''b'', ''c''] \<and>
   distinct (getUniqueArray xs) \<and>
   set (getUniqueArray xs) = set xs \<and>
   getUniqueArray (x # xs) = x # getUniqueArray (removeAll x xs) \<and>
   getUniqueArray (getUniqueArray xs) = getUniqueArray xs \<and>
   extras (normalizeConf ctx raw a) = getUniqueArray (raw_extras raw) \<and>
   animations (normalizeConf ctx (raw\<lparr>raw_animations := AnimationNames ns\<rparr>) a) = getUniqueArray ns \<and>
   framework_components (normalizeConf ctx raw a) =
     getUniqueArray (pushSpinner (raw_notify raw) (pushSpinner (raw_loading raw) (raw_components raw))) \<and>
   framework_directives (normalizeConf ctx raw a) = getUniqueArray (raw_directives raw) \<and>
   framework_plugins (normalizeConf ctx raw a) = getUniqueArray (raw_plugins raw)"
proof -
  have ex: "getUniqueArray [''a'', ''b'', ''a'', ''c'', ''b''] = [''a'', ''b'', ''c'']"
    by (simp add: getUniqueArray_def setAdd_def)
  have e: "extras (normalizeConf ctx raw a) = getUniqueArray (raw_extras raw)"
    by (simp add: normalizeConf_def getUniqueArray_def)
  have an: "animations (normalizeConf ctx (raw\<lparr>raw_animations := AnimationNames ns\<rparr>) a)
      = getUniqueArray ns"
    by (simp add: normalizeConf_def uniqueAnimations_def getUniqueArray_def)
  show ?thesis
    using ex e an getUniqueArray_distinct [of xs] getUniqueArray_set [of xs]
      getUniqueArray_Cons [of x xs] getUniqueArray_idem [of xs]
    by (simp add: normalizeConf_def)
qed

subsection \<open>The public path\<close>

lemma endsWith_iff: "endsWith s p \<longleftrightarrow> (\<exists>pre. s = pre @ p)"
proof
  assume "endsWith s p"
  then have "s = take (length s - length p) s @ p"
    by (metis append_take_drop_id endsWith_def)
  then show "\<exists>pre. s = pre @ p" ..
next
  assume "\<exists>pre. s = pre @ p"
  then show "endsWith s p" by (auto simp: endsWith_def)
qed

lemma endsWith_slash_append: "endsWith (p @ ''/'') ''/''"
  by (simp add: endsWith_def)

lemma startsWith_slash_append: "p \<noteq> [] \<Longrightarrow> startsWith (p @ ''/'') ''/'' = startsWith p ''/''"
  by (cases p) (simp_all add: startsWith_def)

lemma endsWith_slash_Cons: "endsWith p ''/'' \<Longrightarrow> endsWith (c # p) ''/''"
  unfolding endsWith_iff by (metis append_Cons)

lemma formatPublicPath_endsWith: "endsWith (formatPublicPath v) ''/''"
proof -
  have one: "endsWith ''/'' ''/''" by (simp add: endsWith_def)
  show ?thesis
    by (auto simp: formatPublicPath_def Let_def one endsWith_slash_append
        endsWith_slash_Cons split: option.splits)
qed

lemma formatPublicPath_cases:
  assumes "p \<noteq> []"
  shows "formatPublicPath (Some p) =
          (let p1 = (if endsWith p ''/'' then p else p @ ''/'')
           in if urlRegex p1 then p1 else if startsWith p ''/'' then p1 else ''/'' @ p1)"
  using assms by (auto simp: formatPublicPath_def Let_def startsWith_slash_append)

text \<open>
  C3, as amended. For the targets \<open>spa\<close>, \<open>pwa\<close> and \<open>ssr\<close>: without a value the public path
  is \<open>/\<close>; a configured value first gets a trailing \<open>/\<close> when it has none, so the result
  always ends with \<open>/\<close>; when that string is an absolute URL it is the result (the input
  \<open>https://cdn.example.com/app\<close> yields \<open>https://cdn.example.com/app/\<close>, and a URL that
  already ends with \<open>/\<close> yields itself), otherwise a leading \<open>/\<close> is added when it has
  none (\<open>app\<close> yields \<open>/app/\<close>). For \<open>capacitor\<close>, \<open>cordova\<close>, \<open>electron\<close> and \<open>bex\<close> the public
  path is always empty.
\<close>

theorem publicPath_derivation:
  "(modeName ctx \<in> {Spa, Pwa, Ssr} \<longrightarrow>
      (\<not> truthyString v \<longrightarrow> publicPath ctx v = ''/'') \<and>
      (\<forall>p. v = Some p \<and> p \<noteq> [] \<longrightarrow>
         endsWith (publicPath ctx v) ''/'' \<and>
         (urlRegex (if endsWith p ''/'' then p else p @ ''/'') \<longrightarrow>
            publicPath ctx v = (if endsWith p ''/'' then p else p @ ''/'')) \<and>
         (\<not> urlRegex (if endsWith p ''/'' then p else p @ ''/'') \<longrightarrow>
            startsWith (publicPath ctx v) ''/'' \<and>
            publicPath ctx v =
              (if startsWith p ''/'' then [] else ''/'') @ (if endsWith p ''/'' then p else p @ ''/'')))) \<and>
   (modeName ctx \<in> {Capacitor, Cordova, Electron, BexMode} \<longrightarrow> publicPath ctx v = []) \<and>
   publicPath \<lparr>modeName = Spa, dev = d\<rparr> (Some ''app'') = ''/app/'' \<and>
   publicPath \<lparr>modeName = Spa, dev = d\<rparr> (Some ''https://cdn.example.com/app'')
     = ''https://cdn.example.com/app/'' \<and>
   publicPath \<lparr>modeName = Spa, dev = d\<rparr> (Some ''https://cdn.example.com/app/'')
     = ''https://cdn.example.com/app/''"
proof -
  have web: "publicPath ctx v = ''/''" if "modeName ctx \<in> {Spa, Pwa, Ssr}" "\<not> truthyString v"
    using that by (auto simp: publicPath_def)
  have fmt: "publicPath ctx (Some p) = formatPublicPath (Some p)"
    if "modeName ctx \<in> {Spa, Pwa, Ssr}" "p \<noteq> []" for p
    using that by (auto simp: publicPath_def truthyString_def)
  have sw: "startsWith (''/'' @ q) ''/''" for q
    by (simp add: startsWith_def)
  have set: "publicPath ctx (Some p) =
      (let p1 = (if endsWith p ''/'' then p else p @ ''/'')
       in if urlRegex p1 then p1 else if startsWith p ''/'' then p1 else ''/'' @ p1)"
    if "modeName ctx \<in> {Spa, Pwa, Ssr}" "p \<noteq> []" for p
    using that fmt formatPublicPath_cases by simp
  have other: "publicPath ctx v = []" if "modeName ctx \<in> {Capacitor, Cordova, Electron, BexMode}"
    using that by (auto simp: publicPath_def)
  have ex1: "publicPath \<lparr>modeName = Spa, dev = d\<rparr> (Some ''app'') = ''/app/''"
    by (simp add: publicPath_def truthyString_def formatPublicPath_def endsWith_def startsWith_def)
  have ex2: "publicPath \<lparr>modeName = Spa, dev = d\<rparr> (Some ''https://cdn.example.com/app'')
     = ''https://cdn.example.com/app/''"
    by (simp add: publicPath_def truthyString_def formatPublicPath_def endsWith_def startsWith_def)
  have ex3: "publicPath \<lparr>modeName = Spa, dev = d\<rparr> (Some ''https://cdn.example.com/app/'')
     = ''https://cdn.example.com/app/''"
    by (simp add: publicPath_def truthyString_def formatPublicPath_def endsWith_def startsWith_def)
  have "endsWith (publicPath ctx (Some p)) ''/''"
    if "modeName ctx \<in> {Spa, Pwa, Ssr}" "p \<noteq> []" for p
    using that fmt formatPublicPath_endsWith by simp
  moreover have "startsWith (publicPath ctx (Some p)) ''/''"
    if "modeName ctx \<in> {Spa, Pwa, Ssr}" "p \<noteq> []"
       "\<not> urlRegex (if endsWith p ''/'' then p else p @ ''/'')" for p
    using that set [of p] sw startsWith_slash_append [of p]
    by (auto simp: Let_def split: if_splits)
  ultimately show ?thesis
    using web other ex1 ex2 ex3 set
    by (auto simp: Let_def)
qed

theorem publicPath_derivation_witness:
  "publicPath sampleCtx None = ''/'' \<and>
   publicPath sampleCtx (Some ''app'') = ''/app/'' \<and>
   publicPath sampleCtx (Some ''HTTPS://cdn/'') = ''HTTPS://cdn/'' \<and>
   publicPath \<lparr>modeName = Electron, dev = False\<rparr> (Some ''app'') = []"
proof -
  have a: "publicPath sampleCtx None = ''/''"
    using publicPath_derivation [of sampleCtx None] by (simp add: sampleCtx_def truthyString_def)
  have b: "publicPath sampleCtx (Some ''app'') = ''/app/''"
    using publicPath_derivation [of sampleCtx "Some ''app''"]
    by (simp add: sampleCtx_def endsWith_def startsWith_def)
  have c: "publicPath sampleCtx (Some ''HTTPS://cdn/'') = ''HTTPS://cdn/''"
    using publicPath_derivation [of sampleCtx "Some ''HTTPS://cdn/''"]
    by (simp add: sampleCtx_def endsWith_def startsWith_def)
  have d: "publicPath \<lparr>modeName = Electron, dev = False\<rparr> (Some ''app'') = []"
    using publicPath_derivation [of "\<lparr>modeName = Electron, dev = False\<rparr>" "Some ''app''"]
    by simp
  show ?thesis using a b c d by simp
qed

text \<open>
  The claim as stated fails: the absolute URL \<open>https://cdn.example.com/app\<close> does not
  yield itself.
\<close>

theorem publicPath_url_counterexample:
  "publicPath \<lparr>modeName = Spa, dev = True\<rparr> (Some ''https://cdn.example.com/app'')
     \<noteq> ''https://cdn.example.com/app''"
  by (simp add: publicPath_def truthyString_def formatPublicPath_def endsWith_def startsWith_def)

subsection \<open>Evaluating a concrete cycle\<close>

lemmas cycle_defs =
  buildCycle_def onEnd_def onStart_def esbuildWrites_def watch_def computeConfig_def
  normalizeUserCfg_def andThen_def loadUserCfg_def extendConf_def mergedConf_def
  devServer_def resolveAddress_def negotiate_def onAddress_def onProbeError_def
  probedHost_def discoverExternalIP_def needsExternalIP_def requestedHost_def
  requestedPort_def portTip_def validate_def invalidWorkbox_def failWith_def fatal_def
  warn_def emit_def removeSync_def mode_def truthyString_def truthyNumber_def
  cycleFailure_def Let_def

lemmas sample_defs = sampleCtx_def sampleOpts_def sampleEnv_def initialSession_def baseDefaults_def

subsection \<open>What a returned configuration is\<close>

lemma pushSpinner_keeps: "x \<in> set components \<Longrightarrow> x \<in> set (pushSpinner conf components)"
  by (auto simp: pushSpinner_def split: option.splits)

lemma pushSpinner_adds:
  "quasarComponentRE name \<Longrightarrow> name \<in> set (pushSpinner (Some (SpinnerConf (Some name))) components)"
  by (simp add: pushSpinner_def)

lemma andThen_Value:
  "andThen r k = (Value v, s') \<Longrightarrow> \<exists>u s1. r = (Value u, s1) \<and> k u s1 = (Value v, s')"
  by (cases r; cases "fst r") (auto simp: andThen_def)

lemma extendConf_Value:
  "extendConf env userCfg failOnError s = (Value raw, s') \<Longrightarrow>
     runAppExtensionHook env (mergedConf env userCfg) = Some raw \<and> s' = s"
  by (auto simp: extendConf_def failWith_def split: option.splits if_splits)

lemma validate_Value:
  "validate ctx env raw a failOnError s = (Value cfg, s') \<Longrightarrow>
     cfg = normalizeConf ctx raw a \<and> s' = s \<and> appFilesValidations env \<and> \<not> invalidWorkbox ctx raw"
  by (auto simp: validate_def failWith_def split: if_splits)

lemma normalizeUserCfg_Value:
  assumes "normalizeUserCfg ctx opts env failOnError userCfg s = (Value cfg, s')"
  shows "\<exists>raw a. runAppExtensionHook env (mergedConf env userCfg) = Some raw \<and>
           devServer ctx opts env raw failOnError s = (Value a, s') \<and>
           cfg = normalizeConf ctx raw a"
proof -
  from assms obtain raw s1 where
    e: "extendConf env userCfg failOnError s = (Value raw, s1)" and
    r: "andThen (devServer ctx opts env raw failOnError s1)
          (\<lambda>a s2. validate ctx env raw a failOnError s2) = (Value cfg, s')"
    unfolding normalizeUserCfg_def by (blast dest: andThen_Value)
  from r obtain a s2 where
    d: "devServer ctx opts env raw failOnError s1 = (Value a, s2)" and
    v: "validate ctx env raw a failOnError s2 = (Value cfg, s')"
    by (blast dest: andThen_Value)
  from e have "runAppExtensionHook env (mergedConf env userCfg) = Some raw" "s1 = s"
    by (auto dest: extendConf_Value)
  moreover from v have "cfg = normalizeConf ctx raw a" "s' = s2"
    by (auto dest: validate_Value)
  ultimately show ?thesis using d by blast
qed

lemma loadUserCfg_Value:
  "loadUserCfg fn failOnError s = (Value userCfg, s') \<Longrightarrow>
     fn = Function (Resolves userCfg) \<and> sameAsObject userCfg \<and> s' = removeSync s"
  by (auto simp: loadUserCfg_def failWith_def split: exported.splits factory.splits if_splits)

lemma computeConfig_Value:
  assumes "computeConfig ctx opts env fn failOnError s = (Value cfg, s')"
  shows "\<exists>userCfg raw a. fn = Function (Resolves userCfg) \<and> sameAsObject userCfg \<and>
           runAppExtensionHook env (mergedConf env userCfg) = Some raw \<and>
           devServer ctx opts env raw failOnError (removeSync s) = (Value a, s') \<and>
           cfg = normalizeConf ctx raw a"
proof -
  from assms obtain userCfg s1 where
    l: "loadUserCfg fn failOnError s = (Value userCfg, s1)" and
    n: "normalizeUserCfg ctx opts env failOnError userCfg s1 = (Value cfg, s')"
    unfolding computeConfig_def by (blast dest: andThen_Value)
  from l have "fn = Function (Resolves userCfg)" "sameAsObject userCfg" "s1 = removeSync s"
    by (auto dest: loadUserCfg_Value)
  then show ?thesis using normalizeUserCfg_Value [OF n] by blast
qed

text \<open>
  C10. A spinner name matches \<open>quasarComponentRE\<close> exactly when it starts with \<open>Q\<close> and an
  upper-case letter or with \<open>q-\<close>. When \<open>framework.config.loading.spinner\<close> or
  \<open>framework.config.notify.spinner\<close> is such a string, it is among the components after
  the pushes of lines 653-665 and therefore in the deduplicated
  \<open>framework.components\<close>, which has no duplicates; this holds for every configuration
  that \<open>computeConfig\<close> returns for an extended configuration with that spinner.
\<close>

theorem spinner_component_added:
  "(quasarComponentRE name \<longleftrightarrow>
      (\<exists>c rest. name = CHR ''Q'' # c # rest \<and> c \<in> set ''ABCDEFGHIJKLMNOPQRSTUVWXYZ'') \<or>
      (\<exists>rest. name = ''q-'' @ rest)) \<and>
   (quasarComponentRE name \<and>
    (raw_loading raw = Some (SpinnerConf (Some name)) \<or>
     raw_notify raw = Some (SpinnerConf (Some name))) \<longrightarrow>
      name \<in> set (pushSpinner (raw_notify raw) (pushSpinner (raw_loading raw) (raw_components raw))) \<and>
      name \<in> set (framework_components (normalizeConf ctx raw a)) \<and>
      distinct (framework_components (normalizeConf ctx raw a)) \<and>
      (\<forall>userCfg cfg s'.
         runAppExtensionHook env (mergedConf env userCfg) = Some raw \<and>
         computeConfig ctx opts env (Function (Resolves userCfg)) failOnError s = (Value cfg, s')
         \<longrightarrow> name \<in> set (framework_components cfg)))"
proof -
  have re: "quasarComponentRE name \<longleftrightarrow>
      (\<exists>c rest. name = CHR ''Q'' # c # rest \<and> c \<in> set ''ABCDEFGHIJKLMNOPQRSTUVWXYZ'') \<or>
      (\<exists>rest. name = ''q-'' @ rest)"
  proof (cases name)
    case Nil
    then show ?thesis by simp
  next
    case (Cons x ys)
    then show ?thesis by (cases ys) (auto simp: isUpperAZ_def)
  qed
  have main: "name \<in> set (pushSpinner (raw_notify raw) (pushSpinner (raw_loading raw) (raw_components raw)))"
    if "quasarComponentRE name"
       "raw_loading raw = Some (SpinnerConf (Some name)) \<or> raw_notify raw = Some (SpinnerConf (Some name))"
  proof -
    from that(2) show ?thesis
    proof
      assume "raw_loading raw = Some (SpinnerConf (Some name))"
      then show ?thesis
        using pushSpinner_adds [OF that(1)] pushSpinner_keeps by simp
    next
      assume "raw_notify raw = Some (SpinnerConf (Some name))"
      then show ?thesis
        using pushSpinner_adds [OF that(1)] by simp
    qed
  qed
  have comp: "framework_components (normalizeConf ctx raw a) =
      getUniqueArray (pushSpinner (raw_notify raw) (pushSpinner (raw_loading raw) (raw_components raw)))"
    for ctx a by (simp add: normalizeConf_def)
  have whole: "name \<in> set (framework_components cfg)"
    if "quasarComponentRE name"
       "raw_loading raw = Some (SpinnerConf (Some name)) \<or> raw_notify raw = Some (SpinnerConf (Some name))"
       "runAppExtensionHook env (mergedConf env userCfg) = Some raw"
       "computeConfig ctx opts env (Function (Resolves userCfg)) failOnError s = (Value cfg, s')"
    for userCfg cfg s'
  proof -
    from computeConfig_Value [OF that(4)] that(3) obtain a' where "cfg = normalizeConf ctx raw a'"
      by fastforce
    then show ?thesis using main [OF that(1,2)] comp by (simp add: getUniqueArray_set)
  qed
  have mem: "name \<in> set (framework_components (normalizeConf ctx raw a))"
    if "quasarComponentRE name"
       "raw_loading raw = Some (SpinnerConf (Some name)) \<or> raw_notify raw = Some (SpinnerConf (Some name))"
    using main [OF that] comp by (simp add: getUniqueArray_set)
  have dist: "distinct (framework_components (normalizeConf ctx raw a))"
    using comp by (simp add: getUniqueArray_distinct)
  show ?thesis
  proof (intro conjI impI allI)
    show "quasarComponentRE name \<longleftrightarrow>
      (\<exists>c rest. name = CHR ''Q'' # c # rest \<and> c \<in> set ''ABCDEFGHIJKLMNOPQRSTUVWXYZ'') \<or>
      (\<exists>rest. name = ''q-'' @ rest)" by (rule re)
  qed (use main mem dist whole in blast)+
qed

theorem spinner_component_added_witness:
  "quasarComponentRE ''QSpinnerGears'' \<and>
   raw_loading (baseDefaults\<lparr>raw_components := [''QBtn''],
      raw_loading := Some (SpinnerConf (Some ''QSpinnerGears''))\<rparr>)
     = Some (SpinnerConf (Some ''QSpinnerGears'')) \<and>
   ''QSpinnerGears'' \<in> set (framework_components (normalizeConf sampleCtx
      (baseDefaults\<lparr>raw_components := [''QBtn''],
         raw_loading := Some (SpinnerConf (Some ''QSpinnerGears''))\<rparr>) (None, None))) \<and>
   (\<exists>cfg s'.
      computeConfig sampleCtx sampleOpts
        (sampleEnv\<lparr>mergeDefaults := (\<lambda>userCfg. baseDefaults\<lparr>raw_components := [''QBtn''],
           raw_loading := Some (SpinnerConf (Some ''QSpinnerGears''))\<rparr>)\<rparr>)
        (Function (Resolves (JObject []))) True initialSession = (Value cfg, s') \<and>
      ''QSpinnerGears'' \<in> set (framework_components cfg))"
proof -
  let ?raw = "baseDefaults\<lparr>raw_components := [''QBtn''],
      raw_loading := Some (SpinnerConf (Some ''QSpinnerGears''))\<rparr>"
  let ?env = "sampleEnv\<lparr>mergeDefaults := (\<lambda>userCfg. ?raw)\<rparr>"
  let ?r = "computeConfig sampleCtx sampleOpts ?env (Function (Resolves (JObject []))) True
      initialSession"
  have re: "quasarComponentRE ''QSpinnerGears''" by (simp add: isUpperAZ_def)
  have ld: "raw_loading ?raw = Some (SpinnerConf (Some ''QSpinnerGears''))" by simp
  have hook: "runAppExtensionHook ?env (mergedConf ?env (JObject [])) = Some ?raw"
    by (simp add: sample_defs mergedConf_def)
  have "fst ?r = Value (normalizeConf sampleCtx ?raw (Some ''0.0.0.0'', Some 9000))"
    by (simp add: cycle_defs sample_defs)
  then have run: "?r = (Value (normalizeConf sampleCtx ?raw (Some ''0.0.0.0'', Some 9000)), snd ?r)"
    by (metis prod.collapse)
  note inst = spinner_component_added [of "''QSpinnerGears''" ?raw sampleCtx _ ?env sampleOpts True
      initialSession]
  have a: "''QSpinnerGears'' \<in> set (framework_components (normalizeConf sampleCtx ?raw (None, None)))"
    using inst [of "(None, None)"] re ld by blast
  have b: "''QSpinnerGears'' \<in> set (framework_components
      (normalizeConf sampleCtx ?raw (Some ''0.0.0.0'', Some 9000)))"
    using inst [of "(None, None)"] re ld hook run by blast
  show ?thesis using re ld a b run by blast
qed

subsection \<open>What the stages leave alone\<close>

lemma framed_Value: "framed s (Value v, s)"
  by (simp add: framed_def keeps_def)

lemma framed_failWith: "framed s (failWith f b s)"
  by (simp add: framed_def keeps_def failWith_def fatal_def warn_def emit_def)

lemma framed_emit: "framed (emit e s) r \<Longrightarrow> framed s r"
  by (simp add: framed_def keeps_def emit_def)

lemma framed_andThen:
  assumes "framed s r" and "\<And>v. fst r = Value v \<Longrightarrow> framed (snd r) (k v (snd r))"
  shows "framed s (andThen r k)"
proof (cases r)
  case (Pair x s1)
  show ?thesis
  proof (cases x)
    case (Value v)
    with Pair assms(2) [of v] have "framed s1 (k v s1)" by simp
    with assms(1) Pair Value show ?thesis
      by (auto simp: framed_def keeps_def andThen_def)
  qed (use assms(1) Pair in \<open>simp_all add: andThen_def framed_def\<close>)
qed

lemma framed_onAddress: "framed s (onAddress env a m s)"
  by (auto simp: framed_def keeps_def onAddress_def onProbeError_def discoverExternalIP_def
      emit_def Let_def split: probe.splits)

lemma framed_negotiate: "framed s (negotiate ctx opts env a b s)"
proof (cases "verifyAddress opts")
  case False
  then show ?thesis by (simp add: negotiate_def framed_def keeps_def)
next
  case True
  obtain r s1 where o: "onAddress env a (modeName ctx) s = (r, s1)"
    by (cases "onAddress env a (modeName ctx) s")
  with framed_onAddress [of s env a "modeName ctx"] have f: "framed s (r, s1)" by simp
  show ?thesis
  proof (cases r)
    case Exited
    with True o f show ?thesis by (simp add: negotiate_def)
  next
    case Undefined
    have "framed s1 (failWith NetworkFailure b s1 :: addr ret \<times> session)"
      by (rule framed_failWith)
    with True o f Undefined show ?thesis
      by (auto simp: negotiate_def framed_def keeps_def)
  next
    case (Value to)
    with True o f show ?thesis by (auto simp: negotiate_def framed_def keeps_def)
  qed
qed

lemma framed_resolveAddress: "framed s (resolveAddress ctx opts env a b s)"
  using framed_negotiate [of s ctx opts env a b] framed_Value
  by (auto simp: resolveAddress_def split: option.splits)

lemma framed_devServer: "framed s (devServer ctx opts env raw b s)"
proof -
  have "framed (portTip opts raw s) r \<Longrightarrow> framed s r" for r :: "addr ret \<times> session"
    by (auto simp: portTip_def dest: framed_emit split: if_splits)
  then show ?thesis
    by (simp add: devServer_def framed_resolveAddress framed_Value)
qed

lemma framed_extendConf: "framed s (extendConf env userCfg b s)"
proof (cases "runAppExtensionHook env (mergedConf env userCfg)")
  case None
  have "framed (emit ConsoleError s) (failWith ExtensionFailure b (emit ConsoleError s)
      :: rawQuasarConf ret \<times> session)"
    by (rule framed_failWith)
  with None show ?thesis by (simp add: extendConf_def framed_emit)
next
  case (Some raw)
  then show ?thesis by (simp add: extendConf_def framed_Value)
qed

lemma framed_validate: "framed s (validate ctx env raw a b s)"
  by (simp add: validate_def framed_failWith framed_Value)

lemma framed_normalizeUserCfg: "framed s (normalizeUserCfg ctx opts env b userCfg s)"
  unfolding normalizeUserCfg_def
  by (intro framed_andThen framed_extendConf framed_devServer framed_validate)

lemma computeConfig_frame:
  "isFirst (snd (computeConfig ctx opts env fn b s)) = isFirst s \<and>
   isWatching (snd (computeConfig ctx opts env fn b s)) = isWatching s \<and>
   firstBuildIsDone (snd (computeConfig ctx opts env fn b s)) = firstBuildIsDone s \<and>
   watchCalls (snd (computeConfig ctx opts env fn b s)) = watchCalls s \<and>
   terminated (snd (computeConfig ctx opts env fn b s))
     = (terminated s \<or> fst (computeConfig ctx opts env fn b s) = Exited) \<and>
   tempFile (snd (computeConfig ctx opts env fn b s)) = (fn = Function Throws \<and> tempFile s)"
proof (cases fn)
  case NotFunction
  then show ?thesis
    by (simp add: computeConfig_def loadUserCfg_def andThen_def failWith_def fatal_def warn_def
        emit_def removeSync_def)
next
  case (Function fac)
  show ?thesis
  proof (cases fac)
    case Throws
    with Function show ?thesis
      by (simp add: computeConfig_def loadUserCfg_def andThen_def failWith_def fatal_def warn_def
          emit_def)
  next
    case (Resolves v)
    show ?thesis
    proof (cases "sameAsObject v")
      case False
      with Function Resolves show ?thesis
        by (simp add: computeConfig_def loadUserCfg_def andThen_def failWith_def fatal_def
            warn_def emit_def removeSync_def)
    next
      case True
      with Function Resolves have
        "computeConfig ctx opts env fn b s = normalizeUserCfg ctx opts env b v (removeSync s)"
        by (simp add: computeConfig_def loadUserCfg_def andThen_def)
      with framed_normalizeUserCfg [of "removeSync s" ctx opts env b v] Function Resolves
      show ?thesis by (simp add: framed_def keeps_def removeSync_def)
    qed
  qed
qed

subsection \<open>Failures of a build cycle in a watch session\<close>

lemma computeConfig_failure:
  assumes "compileErrors env = 0" and "importResult env = Imported fn"
    and "cycleFailure ctx opts env s = Some f" and "f \<noteq> NetworkFailure"
  shows "\<exists>sx. computeConfig ctx opts env fn (isFirst s) s = failWith f (isFirst s) sx \<and>
           terminated sx = terminated s"
proof (cases fn)
  case NotFunction
  with assms have "f = NotAFunction" by (simp add: cycleFailure_def)
  with NotFunction show ?thesis
    by (auto simp: computeConfig_def loadUserCfg_def andThen_def failWith_def removeSync_def
        intro!: exI [of _ "removeSync s"])
next
  case (Function fac)
  show ?thesis
  proof (cases fac)
    case Throws
    with Function assms have "f = RuntimeFailure" by (simp add: cycleFailure_def)
    with Function Throws show ?thesis
      by (auto simp: computeConfig_def loadUserCfg_def andThen_def failWith_def emit_def
          intro!: exI [of _ "emit ConsoleError s"])
  next
    case (Resolves v)
    show ?thesis
    proof (cases "sameAsObject v")
      case False
      with Function Resolves assms have "f = NotAnObject" by (simp add: cycleFailure_def)
      with Function Resolves False show ?thesis
        by (auto simp: computeConfig_def loadUserCfg_def andThen_def failWith_def removeSync_def
            intro!: exI [of _ "removeSync s"])
    next
      case True
      with Function Resolves have cc:
        "computeConfig ctx opts env fn (isFirst s) s
           = normalizeUserCfg ctx opts env (isFirst s) v (removeSync s)"
        by (simp add: computeConfig_def loadUserCfg_def andThen_def)
      show ?thesis
      proof (cases "runAppExtensionHook env (mergedConf env v)")
        case None
        with Function Resolves True assms have "f = ExtensionFailure"
          by (simp add: cycleFailure_def)
        with cc None show ?thesis
          by (auto simp: normalizeUserCfg_def extendConf_def andThen_def failWith_def emit_def
              removeSync_def intro!: exI [of _ "emit ConsoleError (removeSync s)"])
      next
        case (Some raw)
        obtain r s2 where d: "devServer ctx opts env raw (isFirst s) (removeSync s) = (r, s2)"
          by (cases "devServer ctx opts env raw (isFirst s) (removeSync s)")
        from assms Function Resolves True Some d obtain a where
          r: "r = Value a" and
          f: "f = (if \<not> appFilesValidations env then ValidationFailure else WorkboxFailure)" and
          bad: "\<not> appFilesValidations env \<or> invalidWorkbox ctx raw"
          by (cases r) (auto simp: cycleFailure_def split: if_splits)
        from framed_devServer [of "removeSync s" ctx opts env raw "isFirst s"] d r
        have t: "terminated s2 = terminated s"
          by (simp add: framed_def removeSync_def)
        from cc Some d r f bad
        have "computeConfig ctx opts env fn (isFirst s) s = failWith f (isFirst s) s2"
          by (auto simp: normalizeUserCfg_def extendConf_def andThen_def validate_def)
        with t show ?thesis by blast
      qed
    qed
  qed
qed

lemma failWith_result:
  "failWith f b sx = (r, s') \<Longrightarrow>
     r = (if b then Exited else Undefined) \<and> terminated s' = (terminated sx \<or> b) \<and>
     events s' = events sx @ [if b then Fatal f else Warn f]"
  by (auto simp: failWith_def fatal_def warn_def emit_def split: if_splits)

lemma onEnd_failure:
  assumes "cycleFailure ctx opts env s = Some f" and "f \<noteq> NetworkFailure"
    and "isFirst s \<or> isWatching s"
  shows "terminated (onEnd ctx opts env s) = (terminated s \<or> isFirst s) \<and>
         last (events (onEnd ctx opts env s)) = (if isFirst s then Fatal f else Warn f) \<and>
         isFirst (onEnd ctx opts env s) = isFirst s \<and>
         firstBuildIsDone (onEnd ctx opts env s) = firstBuildIsDone s \<and>
         watchCalls (onEnd ctx opts env s) = watchCalls s"
proof (cases "compileErrors env = 0")
  case False
  with assms have "f = CompileFailure" by (simp add: cycleFailure_def)
  with False assms(3) show ?thesis
    by (auto simp: onEnd_def fatal_def warn_def emit_def removeSync_def)
next
  case True
  show ?thesis
  proof (cases "importResult env")
    case ImportThrows
    with True assms have "f = ImportFailure" by (simp add: cycleFailure_def)
    with True ImportThrows assms(3) show ?thesis
      by (auto simp: onEnd_def fatal_def warn_def emit_def)
  next
    case (Imported fn)
    from computeConfig_failure [OF True Imported assms(1,2)] obtain sx where
      cc: "computeConfig ctx opts env fn (isFirst s) s = failWith f (isFirst s) sx" and
      t: "terminated sx = terminated s"
      by blast
    obtain r s' where fw: "failWith f (isFirst s) sx = (r :: quasarConf ret, s')"
      by (cases "failWith f (isFirst s) sx :: quasarConf ret \<times> session")
    from failWith_result [OF fw] have
      r: "r = (if isFirst s then Exited else Undefined)" and
      t': "terminated s' = (terminated sx \<or> isFirst s)" and
      e: "events s' = events sx @ [if isFirst s then Fatal f else Warn f]"
      by simp_all
    from computeConfig_frame [of ctx opts env fn "isFirst s" s] cc fw have
      fr: "isFirst s' = isFirst s" "firstBuildIsDone s' = firstBuildIsDone s"
        "watchCalls s' = watchCalls s"
      by simp_all
    from True Imported assms(3) cc fw r have "onEnd ctx opts env s = s'"
      by (auto simp: onEnd_def)
    with t t' e fr show ?thesis by simp
  qed
qed

text \<open>
  C1, as amended. A cycle whose first failure is a compile error, an import error, an export
  that is not a function, a factory that throws, a result that is not an object, an
  extension that throws, a failed files validation or an invalid workbox mode: on the
  first build the process is terminated by \<open>fatal\<close> and nothing is delivered; on a later
  build that ends after \<open>watch()\<close> was called the process goes on, the last thing emitted
  is the warning of that failure, and neither the first-build promise nor the \<open>watch\<close>
  callback is touched; a later build that ends before \<open>watch()\<close> was called is discarded
  with no effect at all (line 318), so no warning is emitted for it.
\<close>

theorem failure_fatal_on_first_build_warning_later:
  assumes "cycleFailure ctx opts env s = Some f" and "f \<noteq> NetworkFailure"
    and "\<not> terminated s"
  shows "(isFirst s \<longrightarrow>
            terminated (onEnd ctx opts env s) \<and>
            last (events (onEnd ctx opts env s)) = Fatal f \<and>
            firstBuildIsDone (onEnd ctx opts env s) = firstBuildIsDone s \<and>
            watchCalls (onEnd ctx opts env s) = watchCalls s) \<and>
         (\<not> isFirst s \<and> isWatching s \<longrightarrow>
            \<not> terminated (onEnd ctx opts env s) \<and>
            last (events (onEnd ctx opts env s)) = Warn f \<and>
            \<not> isFirst (onEnd ctx opts env s) \<and>
            firstBuildIsDone (onEnd ctx opts env s) = firstBuildIsDone s \<and>
            watchCalls (onEnd ctx opts env s) = watchCalls s) \<and>
         (\<not> isFirst s \<and> \<not> isWatching s \<longrightarrow> onEnd ctx opts env s = s)"
proof -
  have discard: "onEnd ctx opts env s = s" if "\<not> isFirst s" "\<not> isWatching s"
    using that by (simp add: onEnd_def)
  show ?thesis
    using onEnd_failure [OF assms(1,2)] assms(3) discard by auto
qed

theorem failure_fatal_on_first_build_warning_later_witness:
  "cycleFailure sampleCtx sampleOpts (sampleEnv\<lparr>compileErrors := 1\<rparr>) initialSession
     = Some CompileFailure \<and>
   isFirst initialSession \<and>
   terminated (onEnd sampleCtx sampleOpts (sampleEnv\<lparr>compileErrors := 1\<rparr>) initialSession) \<and>
   last (events (onEnd sampleCtx sampleOpts (sampleEnv\<lparr>compileErrors := 1\<rparr>) initialSession))
     = Fatal CompileFailure \<and>
   cycleFailure sampleCtx sampleOpts (sampleEnv\<lparr>appFilesValidations := False\<rparr>)
     (initialSession\<lparr>isFirst := False, isWatching := True\<rparr>) = Some ValidationFailure \<and>
   \<not> terminated (onEnd sampleCtx sampleOpts (sampleEnv\<lparr>appFilesValidations := False\<rparr>)
     (initialSession\<lparr>isFirst := False, isWatching := True\<rparr>)) \<and>
   last (events (onEnd sampleCtx sampleOpts (sampleEnv\<lparr>appFilesValidations := False\<rparr>)
     (initialSession\<lparr>isFirst := False, isWatching := True\<rparr>))) = Warn ValidationFailure \<and>
   watchCalls (onEnd sampleCtx sampleOpts (sampleEnv\<lparr>appFilesValidations := False\<rparr>)
     (initialSession\<lparr>isFirst := False, isWatching := True\<rparr>)) = [] \<and>
   cycleFailure sampleCtx sampleOpts (sampleEnv\<lparr>importResult := Imported (Function Throws)\<rparr>)
     (initialSession\<lparr>isFirst := False\<rparr>) = Some RuntimeFailure \<and>
   onEnd sampleCtx sampleOpts (sampleEnv\<lparr>importResult := Imported (Function Throws)\<rparr>)
     (initialSession\<lparr>isFirst := False\<rparr>) = initialSession\<lparr>isFirst := False\<rparr>"
proof -
  let ?e1 = "sampleEnv\<lparr>compileErrors := 1\<rparr>"
  let ?e2 = "sampleEnv\<lparr>appFilesValidations := False\<rparr>"
  let ?s2 = "initialSession\<lparr>isFirst := False, isWatching := True\<rparr>"
  let ?e3 = "sampleEnv\<lparr>importResult := Imported (Function Throws)\<rparr>"
  let ?s3 = "initialSession\<lparr>isFirst := False\<rparr>"
  have c1: "cycleFailure sampleCtx sampleOpts ?e1 initialSession = Some CompileFailure"
    by (simp add: cycleFailure_def sampleEnv_def)
  have c2: "cycleFailure sampleCtx sampleOpts ?e2 ?s2 = Some ValidationFailure"
    by (simp add: cycle_defs sample_defs)
  have c3: "cycleFailure sampleCtx sampleOpts ?e3 ?s3 = Some RuntimeFailure"
    by (simp add: cycleFailure_def sampleEnv_def)
  have i: "isFirst initialSession" "\<not> terminated initialSession"
    "\<not> isFirst ?s2" "isWatching ?s2" "\<not> terminated ?s2"
    "\<not> isFirst ?s3" "\<not> isWatching ?s3" "\<not> terminated ?s3" "watchCalls ?s2 = []"
    by (simp_all add: initialSession_def)
  show ?thesis
    using failure_fatal_on_first_build_warning_later [OF c1 _ i(2)]
      failure_fatal_on_first_build_warning_later [OF c2 _ i(5)]
      failure_fatal_on_first_build_warning_later [OF c3 _ i(8)]
      c1 c2 c3 i
    by simp
qed

text \<open>
  The claim as stated fails: after a successful first build and before \<open>watch()\<close>, a rebuild
  with compile errors emits no warning.
\<close>

theorem failure_before_watch_counterexample:
  "(let s1 = buildCycle sampleCtx sampleOpts sampleEnv initialSession;
        s2 = buildCycle sampleCtx sampleOpts (sampleEnv\<lparr>compileErrors := 1\<rparr>) s1
    in firstBuildIsDone s1 \<noteq> None \<and> \<not> isFirst s1 \<and> \<not> terminated s1 \<and>
       cycleFailure sampleCtx sampleOpts (sampleEnv\<lparr>compileErrors := 1\<rparr>) s1
         = Some CompileFailure \<and>
       events s2 = events s1 @ [LogReadingAgain] \<and>
       Warn CompileFailure \<notin> set (events s2))"
  by (simp add: cycle_defs sample_defs)

subsection \<open>The temporary compiled file\<close>

lemma onEnd_tempFile:
  assumes "isFirst s \<or> isWatching s"
  shows "tempFile (onEnd ctx opts env s) =
           (compileErrors env = 0 \<and>
            (importResult env = ImportThrows \<or> importResult env = Imported (Function Throws)) \<and>
            tempFile s)"
proof (cases "compileErrors env = 0")
  case False
  with assms show ?thesis
    by (auto simp: onEnd_def fatal_def warn_def emit_def removeSync_def)
next
  case True
  show ?thesis
  proof (cases "importResult env")
    case ImportThrows
    with True assms show ?thesis
      by (auto simp: onEnd_def fatal_def warn_def emit_def)
  next
    case (Imported fn)
    obtain r s1 where cc: "computeConfig ctx opts env fn (isFirst s) s = (r, s1)"
      by (cases "computeConfig ctx opts env fn (isFirst s) s")
    with computeConfig_frame [of ctx opts env fn "isFirst s" s]
    have t: "tempFile s1 = (fn = Function Throws \<and> tempFile s)" by simp
    have "tempFile (onEnd ctx opts env s) = tempFile s1"
      using True Imported assms cc by (cases r) (auto simp: onEnd_def emit_def)
    with t True Imported show ?thesis by simp
  qed
qed

lemma cycleFailure_runtime:
  "cycleFailure ctx opts env s = Some RuntimeFailure \<longleftrightarrow>
     compileErrors env = 0 \<and> importResult env = Imported (Function Throws)"
  by (auto simp: cycleFailure_def
      split: imported.splits exported.splits factory.splits option.splits ret.splits if_splits)

lemma cycleFailure_import:
  "cycleFailure ctx opts env s = Some ImportFailure \<longleftrightarrow>
     compileErrors env = 0 \<and> importResult env = ImportThrows"
  by (auto simp: cycleFailure_def
      split: imported.splits exported.splits factory.splits option.splits ret.splits if_splits)

text \<open>
  C2, as amended. After a cycle the watcher handles (the first build, or a build that ends
  after \<open>watch()\<close> was called) the temporary compiled file is on disk exactly when the
  compile had no errors, the file was there, and importing it or running the factory
  threw: it is removed after a compile failure, an export that is not a function, a result
  that is not an object, and as soon as the factory has resolved to an object (hence
  before an extension, network or validation failure and before a success); it is left in
  place, for the user to inspect, when the import or the factory throws.
\<close>

theorem temp_file_removed_unless_runtime_error:
  assumes "isFirst s \<or> isWatching s"
  shows "tempFile (onEnd ctx opts env s) =
           (compileErrors env = 0 \<and>
            (importResult env = ImportThrows \<or> importResult env = Imported (Function Throws)) \<and>
            tempFile s) \<and>
         (cycleFailure ctx opts env s \<noteq> Some ImportFailure \<and>
          cycleFailure ctx opts env s \<noteq> Some RuntimeFailure \<longrightarrow>
            \<not> tempFile (onEnd ctx opts env s)) \<and>
         (cycleFailure ctx opts env s = Some ImportFailure \<or>
          cycleFailure ctx opts env s = Some RuntimeFailure \<longrightarrow>
            tempFile (onEnd ctx opts env s) = tempFile s)"
  using onEnd_tempFile [OF assms, of ctx opts env]
    cycleFailure_runtime [of ctx opts env s] cycleFailure_import [of ctx opts env s]
  by auto

theorem temp_file_removed_unless_runtime_error_witness:
  "isFirst initialSession \<and>
   tempFile (esbuildWrites sampleEnv initialSession) \<and>
   cycleFailure sampleCtx sampleOpts sampleEnv (esbuildWrites sampleEnv initialSession) = None \<and>
   \<not> tempFile (onEnd sampleCtx sampleOpts sampleEnv (esbuildWrites sampleEnv initialSession)) \<and>
   cycleFailure sampleCtx sampleOpts (sampleEnv\<lparr>importResult := Imported (Function Throws)\<rparr>)
     (esbuildWrites sampleEnv initialSession) = Some RuntimeFailure \<and>
   tempFile (onEnd sampleCtx sampleOpts (sampleEnv\<lparr>importResult := Imported (Function Throws)\<rparr>)
     (esbuildWrites sampleEnv initialSession))"
proof -
  let ?s = "esbuildWrites sampleEnv initialSession"
  let ?e = "sampleEnv\<lparr>importResult := Imported (Function Throws)\<rparr>"
  have f: "isFirst initialSession" "isFirst ?s \<or> isWatching ?s" "tempFile ?s"
    by (simp_all add: initialSession_def esbuildWrites_def sampleEnv_def)
  have c1: "cycleFailure sampleCtx sampleOpts sampleEnv ?s = None"
    by (simp add: cycle_defs sample_defs)
  have c2: "cycleFailure sampleCtx sampleOpts ?e ?s = Some RuntimeFailure"
    by (simp add: cycleFailure_def sampleEnv_def)
  show ?thesis
    using temp_file_removed_unless_runtime_error [OF f(2), of sampleCtx sampleOpts sampleEnv]
      temp_file_removed_unless_runtime_error [OF f(2), of sampleCtx sampleOpts ?e]
      f c1 c2
    by (simp add: sampleEnv_def)
qed

text \<open>
  The claim as stated fails: a rebuild whose factory throws leaves the compiled file on
  disk.
\<close>

theorem temp_file_left_counterexample:
  "(let s1 = watch (buildCycle sampleCtx sampleOpts sampleEnv initialSession);
        s2 = buildCycle sampleCtx sampleOpts
               (sampleEnv\<lparr>importResult := Imported (Function Throws)\<rparr>) s1
    in \<not> isFirst s1 \<and> isWatching s1 \<and> \<not> tempFile s1 \<and>
       last (events s2) = Warn RuntimeFailure \<and> \<not> terminated s2 \<and> tempFile s2)"
  by (simp add: cycle_defs sample_defs)

subsection \<open>The shape of the factory's result\<close>

lemma onAddress_no_shape:
  "set (events (snd (onAddress env a m s))) \<subseteq> set (events s) \<union> - {Warn NotAnObject, Fatal NotAnObject}"
  by (auto simp: onAddress_def onProbeError_def discoverExternalIP_def emit_def Let_def
      split: probe.splits)

lemma negotiate_no_shape:
  "set (events (snd (negotiate ctx opts env a b s))) \<subseteq> set (events s) \<union> - {Warn NotAnObject, Fatal NotAnObject}"
proof (cases "verifyAddress opts")
  case False
  then show ?thesis by (simp add: negotiate_def)
next
  case True
  obtain r s1 where o: "onAddress env a (modeName ctx) s = (r, s1)"
    by (cases "onAddress env a (modeName ctx) s")
  with onAddress_no_shape [of env a "modeName ctx" s]
  have "set (events s1) \<subseteq> set (events s) \<union> - {Warn NotAnObject, Fatal NotAnObject}" by simp
  with True o show ?thesis
    by (cases r) (auto simp: negotiate_def failWith_def fatal_def warn_def emit_def)
qed

lemma devServer_no_shape:
  "set (events (snd (devServer ctx opts env raw b s))) \<subseteq> set (events s) \<union> - {Warn NotAnObject, Fatal NotAnObject}"
proof -
  have n: "set (events (snd (resolveAddress ctx opts env a b s'))) \<subseteq> set (events s') \<union> - {Warn NotAnObject, Fatal NotAnObject}" for a s'
    using negotiate_no_shape [of ctx opts env a b s']
    by (auto simp: resolveAddress_def split: option.splits)
  have p: "set (events (portTip opts raw s)) \<subseteq> set (events s) \<union> - {Warn NotAnObject, Fatal NotAnObject}"
    by (auto simp: portTip_def emit_def)
  show ?thesis
    using n [of "(requestedHost opts raw, requestedPort ctx opts raw)" "portTip opts raw s"] p
    by (auto simp: devServer_def)
qed

lemma normalizeUserCfg_no_shape:
  "set (events (snd (normalizeUserCfg ctx opts env b v s))) \<subseteq> set (events s) \<union> - {Warn NotAnObject, Fatal NotAnObject}"
proof (cases "runAppExtensionHook env (mergedConf env v)")
  case None
  then show ?thesis
    by (auto simp: normalizeUserCfg_def extendConf_def andThen_def failWith_def fatal_def
        warn_def emit_def)
next
  case (Some raw)
  obtain r s1 where d: "devServer ctx opts env raw b s = (r, s1)"
    by (cases "devServer ctx opts env raw b s")
  with devServer_no_shape [of ctx opts env raw b s]
  have "set (events s1) \<subseteq> set (events s) \<union> - {Warn NotAnObject, Fatal NotAnObject}" by simp
  with Some d show ?thesis
    by (cases r)
      (auto simp: normalizeUserCfg_def extendConf_def andThen_def validate_def failWith_def
        fatal_def warn_def emit_def)
qed

lemma sameAsObject_iff: "\<not> sameAsObject v \<longleftrightarrow> v = JNull \<or> isPrimitive v"
  by (cases v) simp_all

text \<open>
  C9. \<^verbatim>\<open>Object(userCfg) !== userCfg\<close> holds exactly for \<open>null\<close> and the primitive values.
  For these \<open>computeConfig\<close> removes the temporary file and fails with the not-an-object
  error (fatal or warning, by \<open>failOnError\<close>); for every other value, arrays included, it
  goes on with the normalisation of that value and never reports the not-an-object
  error.
\<close>

theorem not_an_object_rejected:
  "(\<not> sameAsObject v \<longleftrightarrow> v = JNull \<or> isPrimitive v) \<and>
   (v = JNull \<or> isPrimitive v \<longrightarrow>
      computeConfig ctx opts env (Function (Resolves v)) failOnError s
        = failWith NotAnObject failOnError (removeSync s)) \<and>
   (\<not> (v = JNull \<or> isPrimitive v) \<longrightarrow>
      computeConfig ctx opts env (Function (Resolves v)) failOnError s
        = normalizeUserCfg ctx opts env failOnError v (removeSync s) \<and>
      set (events (snd (computeConfig ctx opts env (Function (Resolves v)) failOnError s)))
        \<subseteq> set (events s) \<union> - {Warn NotAnObject, Fatal NotAnObject}) \<and>
   computeConfig ctx opts env (Function (Resolves (JArray xs))) failOnError s
     = normalizeUserCfg ctx opts env failOnError (JArray xs) (removeSync s)"
proof -
  have rej: "computeConfig ctx opts env (Function (Resolves v)) failOnError s
        = failWith NotAnObject failOnError (removeSync s)" if "\<not> sameAsObject v"
    using that by (simp add: computeConfig_def loadUserCfg_def andThen_def failWith_def)
  have acc: "computeConfig ctx opts env (Function (Resolves w)) failOnError s
        = normalizeUserCfg ctx opts env failOnError w (removeSync s)" if "sameAsObject w" for w
    using that by (simp add: computeConfig_def loadUserCfg_def andThen_def)
  have ev: "set (events (snd (normalizeUserCfg ctx opts env failOnError v (removeSync s))))
        \<subseteq> set (events s) \<union> - {Warn NotAnObject, Fatal NotAnObject}"
    using normalizeUserCfg_no_shape [of ctx opts env failOnError v "removeSync s"]
    by (simp add: removeSync_def)
  show ?thesis
    using rej acc [of v] acc [of "JArray xs"] sameAsObject_iff [of v] ev by auto
qed

theorem not_an_object_rejected_witness:
  "isPrimitive (JString ''quasar'') \<and>
   computeConfig sampleCtx sampleOpts sampleEnv (Function (Resolves (JString ''quasar''))) False
     initialSession = failWith NotAnObject False (removeSync initialSession) \<and>
   computeConfig sampleCtx sampleOpts sampleEnv (Function (Resolves JNull)) True
     initialSession = failWith NotAnObject True (removeSync initialSession) \<and>
   \<not> (JArray [] = JNull \<or> isPrimitive (JArray [])) \<and>
   computeConfig sampleCtx sampleOpts sampleEnv (Function (Resolves (JArray []))) True
     initialSession = normalizeUserCfg sampleCtx sampleOpts sampleEnv True (JArray [])
       (removeSync initialSession) \<and>
   Warn NotAnObject \<notin> set (events (snd (computeConfig sampleCtx sampleOpts sampleEnv
     (Function (Resolves (JArray []))) True initialSession)))"
proof -
  let ?r = "computeConfig sampleCtx sampleOpts sampleEnv (Function (Resolves (JArray []))) True
      initialSession"
  have e: "events initialSession = []" by (simp add: initialSession_def)
  have p: "isPrimitive (JString ''quasar'')" "\<not> (JArray [] = JNull \<or> isPrimitive (JArray []))"
    by simp_all
  have a: "computeConfig sampleCtx sampleOpts sampleEnv (Function (Resolves (JString ''quasar'')))
      False initialSession = failWith NotAnObject False (removeSync initialSession)"
    using not_an_object_rejected [of "JString ''quasar''" sampleCtx sampleOpts sampleEnv False
        initialSession "[]"] p(1)
    by blast
  have b: "computeConfig sampleCtx sampleOpts sampleEnv (Function (Resolves JNull)) True
      initialSession = failWith NotAnObject True (removeSync initialSession)"
    using not_an_object_rejected [of JNull sampleCtx sampleOpts sampleEnv True initialSession "[]"]
    by blast
  have c: "?r = normalizeUserCfg sampleCtx sampleOpts sampleEnv True (JArray [])
      (removeSync initialSession)"
    and d: "set (events (snd ?r)) \<subseteq> set (events initialSession) \<union> - {Warn NotAnObject, Fatal NotAnObject}"
    using not_an_object_rejected [of "JArray []" sampleCtx sampleOpts sampleEnv True
        initialSession "[]"] p(2)
    by blast+
  from d e have "Warn NotAnObject \<notin> set (events (snd ?r))" by auto
  with a b c p show ?thesis by blast
qed

subsection \<open>Asset declarations\<close>

lemma indexOf_ge: "- 1 \<le> indexOf xs v"
  by (induction xs) (auto simp: Let_def)

lemma indexOf_neg_iff: "indexOf xs v < 0 \<longleftrightarrow> v \<notin> set xs"
  using indexOf_ge [of _ v] by (induction xs) (auto simp: Let_def)

lemma indexOf_append_at:
  "indexOf (ps @ v # rest) v = int (length ps) \<longleftrightarrow> v \<notin> set ps"
proof (induction ps)
  case Nil
  then show ?case by simp
next
  case (Cons p ps)
  have nn: "\<not> indexOf (ps @ v # rest) v < 0" by (simp add: indexOf_neg_iff)
  show ?case
  proof (cases "p = v")
    case True
    then show ?thesis by simp
  next
    case False
    with nn Cons show ?thesis by (simp add: Let_def)
  qed
qed

lemma filterIndexed_offset:
  "map fst (filter (\<lambda>(v, i). uniquePathFilter v i (pre @ xs))
      (zip xs [length pre ..< length pre + length xs]))
   = dedupKeepFirst (filter (\<lambda>y. path y \<notin> set (map path pre)) xs)"
proof (induction xs arbitrary: pre)
  case Nil
  then show ?case by simp
next
  case (Cons x xs)
  have up: "[length pre ..< length pre + length (x # xs)]
      = length pre # [length (pre @ [x]) ..< length (pre @ [x]) + length xs]"
    by (subst upt_rec) simp
  have here: "uniquePathFilter x (length pre) (pre @ x # xs) \<longleftrightarrow> path x \<notin> set (map path pre)"
    using indexOf_append_at [of "map path pre" "path x" "map path xs"]
    by (simp add: uniquePathFilter_def)
  have rest: "map fst (filter (\<lambda>(v, i). uniquePathFilter v i (pre @ x # xs))
      (zip xs [length (pre @ [x]) ..< length (pre @ [x]) + length xs]))
    = dedupKeepFirst (filter (\<lambda>y. path y \<notin> set (map path (pre @ [x]))) xs)"
    using Cons.IH [of "pre @ [x]"] by simp
  show ?case
  proof (cases "path x \<in> set (map path pre)")
    case True
    then have "filter (\<lambda>y. path y \<notin> set (map path (pre @ [x]))) xs
        = filter (\<lambda>y. path y \<notin> set (map path pre)) xs"
      by (intro filter_cong) auto
    with True here rest up show ?thesis by simp
  next
    case False
    have "filter (\<lambda>y. path y \<notin> set (map path (pre @ [x]))) xs
        = filter (\<lambda>y. path y \<noteq> path x) (filter (\<lambda>y. path y \<notin> set (map path pre)) xs)"
      by (auto intro: filter_cong)
    with False here rest up show ?thesis by simp
  qed
qed

lemma filterIndexed_dedupKeepFirst: "filterIndexed uniquePathFilter xs = dedupKeepFirst xs"
  using filterIndexed_offset [of "[]" xs] by (simp add: filterIndexed_def)

lemma dedupKeepFirst_set: "set (dedupKeepFirst xs) \<subseteq> set xs"
  by (induction xs rule: dedupKeepFirst.induct) auto

lemma dedupKeepFirst_paths: "path ` set (dedupKeepFirst xs) = path ` set xs"
proof (induction xs rule: dedupKeepFirst.induct)
  case 1
  then show ?case by simp
next
  case (2 x xs)
  have "path ` set (x # xs) = insert (path x) (path ` set (filter (\<lambda>y. path y \<noteq> path x) xs))"
    by auto
  with 2 show ?case by simp
qed

lemma dedupKeepFirst_distinct: "distinct (map path (dedupKeepFirst xs))"
proof (induction xs rule: dedupKeepFirst.induct)
  case 1
  then show ?case by simp
next
  case (2 x xs)
  have "path x \<notin> path ` set (dedupKeepFirst (filter (\<lambda>y. path y \<noteq> path x) xs))"
    using dedupKeepFirst_set [of "filter (\<lambda>y. path y \<noteq> path x) xs"] by auto
  with 2 show ?case by simp
qed

lemma truthyAssets_filter:
  "map Some (truthyAssets entries)
     = filter (\<lambda>e. e \<noteq> None \<and> e \<noteq> Some (AssetString [])) entries"
  by (induction entries rule: truthyAssets.induct) auto

lemma truthyAssets_set:
  "set (truthyAssets entries) = {a. Some a \<in> set entries \<and> a \<noteq> AssetString []}"
proof -
  have "Some ` set (truthyAssets entries)
      = set (filter (\<lambda>e. e \<noteq> None \<and> e \<noteq> Some (AssetString [])) entries)"
    using truthyAssets_filter [of entries] by (metis set_map)
  then show ?thesis by (auto simp: image_iff set_eq_iff)
qed

lemma dedupKeepFirst_filter:
  "dedupKeepFirst (filter (\<lambda>y. Q (path y)) ys) = filter (\<lambda>y. Q (path y)) (dedupKeepFirst ys)"
proof (induction ys rule: dedupKeepFirst.induct)
  case 1
  then show ?case by simp
next
  case (2 x xs)
  have comm: "filter (\<lambda>y. path y \<noteq> path x) (filter (\<lambda>y. Q (path y)) xs)
      = filter (\<lambda>y. Q (path y)) (filter (\<lambda>y. path y \<noteq> path x) xs)"
    by (auto intro: filter_cong)
  show ?case
  proof (cases "Q (path x)")
    case True
    with 2 comm show ?thesis by simp
  next
    case False
    then have "filter (\<lambda>y. Q (path y)) (filter (\<lambda>y. path y \<noteq> path x) xs)
        = filter (\<lambda>y. Q (path y)) xs"
      by (auto intro: filter_cong)
    with False 2 show ?thesis by simp
  qed
qed

lemma parseAssets_chain:
  "parseAssets prefix entries =
     dedupKeepFirst (filter (\<lambda>asset. truthyString (path asset))
       (map (parseAssetProperty prefix) (truthyAssets entries)))"
proof (cases entries)
  case Nil
  then show ?thesis by (simp add: parseAssets_def)
next
  case (Cons e es)
  then show ?thesis by (simp add: parseAssets_def filterIndexed_dedupKeepFirst)
qed

lemma parseAssets_skip:
  "parseAssets prefix (None # others) = parseAssets prefix others"
  "parseAssets prefix (Some (AssetString []) # others) = parseAssets prefix others"
  "\<not> truthyString (path (parseAssetProperty prefix a)) \<Longrightarrow>
     parseAssets prefix (Some a # others) = parseAssets prefix others"
proof -
  show "parseAssets prefix (None # others) = parseAssets prefix others"
    by (simp add: parseAssets_chain)
  show "parseAssets prefix (Some (AssetString []) # others) = parseAssets prefix others"
    by (simp add: parseAssets_chain)
  assume "\<not> truthyString (path (parseAssetProperty prefix a))"
  then show "parseAssets prefix (Some a # others) = parseAssets prefix others"
    by (cases a) (auto simp: parseAssets_chain)
qed

lemma parseAssets_keep:
  assumes "a \<noteq> AssetString []" and "truthyString (path (parseAssetProperty prefix a))"
  shows "parseAssets prefix (Some a # others) =
           parseAssetProperty prefix a #
             filter (\<lambda>asset. path asset \<noteq> path (parseAssetProperty prefix a))
               (parseAssets prefix others)"
proof -
  let ?x = "parseAssetProperty prefix a"
  let ?zs = "filter (\<lambda>asset. truthyString (path asset))
       (map (parseAssetProperty prefix) (truthyAssets others))"
  have "truthyAssets (Some a # others) = a # truthyAssets others"
    using assms(1) by (cases a) auto
  then have "parseAssets prefix (Some a # others) = dedupKeepFirst (?x # ?zs)"
    using assms(2) by (simp add: parseAssets_chain)
  also have "\<dots> = ?x # dedupKeepFirst (filter (\<lambda>y. path y \<noteq> path ?x) ?zs)"
    by simp
  also have "dedupKeepFirst (filter (\<lambda>y. path y \<noteq> path ?x) ?zs)
      = filter (\<lambda>y. path y \<noteq> path ?x) (dedupKeepFirst ?zs)"
    by (rule dedupKeepFirst_filter [of "\<lambda>p. p \<noteq> path ?x"])
  finally show ?thesis by (simp add: parseAssets_chain)
qed

text \<open>
  C7. For a string entry and for the \<open>path\<close> of an object entry alike, a leading \<open>~\<close> is
  stripped (\<open>~custom/path\<close> gives \<open>custom/path\<close>) and any other path gets the root
  prepended (\<open>foo.css\<close> under \<open>src/css\<close> gives \<open>src/css/foo.css\<close>); an object keeps its other
  attributes. The chain applied to \<open>css\<close> and \<open>boot\<close> is the deduplication by path, keeping
  the first occurrence, of the parsed truthy entries with a non-empty path: every entry
  of the result has a non-empty path, no path occurs twice, and the paths are those of
  the parsed entries with a non-empty path. The truthy entries are, in their order, the
  entries other than \<open>null\<close> and the empty string, objects included. So every such entry
  whose resolved path is not empty has its path in the result, and every entry of the
  result is the parse of such an entry. Entry by entry: a \<open>null\<close>, an empty string and an
  entry whose resolved path is empty are skipped; any other entry, string or object,
  stands in front of the result of the entries after it, from which the entries with its
  path are removed. An object entry \<open>axios\<close> followed by the strings \<open>i18n\<close> and \<open>axios\<close>
  under \<open>boot\<close> gives the object with its attributes and \<open>boot/i18n\<close>.
\<close>

theorem asset_parsing:
  "path (parseAssetProperty prefix (AssetString (CHR ''~'' # rest))) = Some rest \<and>
   (\<forall>a. (\<forall>rest. a \<noteq> CHR ''~'' # rest) \<longrightarrow>
      path (parseAssetProperty prefix (AssetString a)) = Some (prefix @ ''/'' @ a)) \<and>
   path (parseAssetProperty prefix (AssetObject (Some (CHR ''~'' # rest)) as)) = Some rest \<and>
   (\<forall>a. (\<forall>rest. a \<noteq> CHR ''~'' # rest) \<longrightarrow>
      path (parseAssetProperty prefix (AssetObject (Some a) as)) = Some (prefix @ ''/'' @ a)) \<and>
   path (parseAssetProperty prefix (AssetObject None as)) = None \<and>
   attrs (parseAssetProperty prefix (AssetObject p as)) = as \<and>
   path (parseAssetProperty ''src/css'' (AssetString ''~custom/path'')) = Some ''custom/path'' \<and>
   path (parseAssetProperty ''src/css'' (AssetString ''foo.css'')) = Some ''src/css/foo.css'' \<and>
   parseAssets prefix entries =
     dedupKeepFirst (filter (\<lambda>asset. truthyString (path asset))
       (map (parseAssetProperty prefix) (truthyAssets entries))) \<and>
   (\<forall>asset \<in> set (parseAssets prefix entries). \<exists>p. path asset = Some p \<and> p \<noteq> []) \<and>
   distinct (map path (parseAssets prefix entries)) \<and>
   path ` set (parseAssets prefix entries) =
     path ` set (filter (\<lambda>asset. truthyString (path asset))
       (map (parseAssetProperty prefix) (truthyAssets entries))) \<and>
   css (normalizeConf ctx raw addr) = parseAssets ''src/css'' (raw_css raw) \<and>
   boot (normalizeConf ctx raw addr) = parseAssets ''boot'' (raw_boot raw) \<and>
   map Some (truthyAssets entries)
     = filter (\<lambda>e. e \<noteq> None \<and> e \<noteq> Some (AssetString [])) entries \<and>
   (\<forall>a. Some a \<in> set entries \<and> a \<noteq> AssetString [] \<and>
        truthyString (path (parseAssetProperty prefix a)) \<longrightarrow>
      path (parseAssetProperty prefix a) \<in> path ` set (parseAssets prefix entries)) \<and>
   (\<forall>asset \<in> set (parseAssets prefix entries).
      \<exists>a. Some a \<in> set entries \<and> a \<noteq> AssetString [] \<and> asset = parseAssetProperty prefix a) \<and>
   (\<forall>a others. a \<noteq> AssetString [] \<and> truthyString (path (parseAssetProperty prefix a)) \<longrightarrow>
      parseAssets prefix (Some a # others) =
        parseAssetProperty prefix a #
          filter (\<lambda>asset. path asset \<noteq> path (parseAssetProperty prefix a))
            (parseAssets prefix others)) \<and>
   (\<forall>others. parseAssets prefix (None # others) = parseAssets prefix others \<and>
      parseAssets prefix (Some (AssetString []) # others) = parseAssets prefix others) \<and>
   (\<forall>a others. \<not> truthyString (path (parseAssetProperty prefix a)) \<longrightarrow>
      parseAssets prefix (Some a # others) = parseAssets prefix others) \<and>
   parseAssets ''boot''
     [Some (AssetObject (Some ''axios'') [(''server'', ''false'')]), Some (AssetString ''i18n''),
      Some (AssetString ''axios'')]
     = [\<lparr>path = Some ''boot/axios'', attrs = [(''server'', ''false'')]\<rparr>,
        \<lparr>path = Some ''boot/i18n'', attrs = []\<rparr>]"
proof -
  let ?ys = "filter (\<lambda>asset. truthyString (path asset))
       (map (parseAssetProperty prefix) (truthyAssets entries))"
  have tilde: "resolveAssetPath prefix (CHR ''~'' # rest) = rest" for rest
    by (simp add: resolveAssetPath_def)
  have plain: "resolveAssetPath prefix a = prefix @ ''/'' @ a" if "\<forall>rest. a \<noteq> CHR ''~'' # rest" for a
    using that by (cases a) (auto simp: resolveAssetPath_def)
  note eq = parseAssets_chain [of prefix entries]
  have truthy: "\<exists>p. path asset = Some p \<and> p \<noteq> []" if "asset \<in> set (parseAssets prefix entries)" for asset
  proof -
    from that eq dedupKeepFirst_set [of ?ys] have "truthyString (path asset)" by auto
    then show ?thesis by (cases "path asset") (simp_all add: truthyString_def)
  qed
  have ex1: "path (parseAssetProperty ''src/css'' (AssetString ''~custom/path'')) = Some ''custom/path''"
    by (simp add: resolveAssetPath_def)
  have ex2: "path (parseAssetProperty ''src/css'' (AssetString ''foo.css'')) = Some ''src/css/foo.css''"
    by (simp add: resolveAssetPath_def)
  have paths: "path ` set (parseAssets prefix entries) = path ` set ?ys"
    using eq dedupKeepFirst_paths [of ?ys] by simp
  have reach: "path (parseAssetProperty prefix a) \<in> path ` set (parseAssets prefix entries)"
    if "Some a \<in> set entries \<and> a \<noteq> AssetString [] \<and>
        truthyString (path (parseAssetProperty prefix a))" for a
  proof -
    from that have "a \<in> set (truthyAssets entries)" by (simp add: truthyAssets_set)
    with that have "parseAssetProperty prefix a \<in> set ?ys" by simp
    with paths show ?thesis by blast
  qed
  have from_entry: "\<exists>a. Some a \<in> set entries \<and> a \<noteq> AssetString [] \<and>
      asset = parseAssetProperty prefix a"
    if "asset \<in> set (parseAssets prefix entries)" for asset
  proof -
    from that eq dedupKeepFirst_set [of ?ys]
    have "asset \<in> parseAssetProperty prefix ` set (truthyAssets entries)" by auto
    then show ?thesis by (auto simp: truthyAssets_set)
  qed
  have ex3: "parseAssets ''boot''
     [Some (AssetObject (Some ''axios'') [(''server'', ''false'')]), Some (AssetString ''i18n''),
      Some (AssetString ''axios'')]
     = [\<lparr>path = Some ''boot/axios'', attrs = [(''server'', ''false'')]\<rparr>,
        \<lparr>path = Some ''boot/i18n'', attrs = []\<rparr>]"
    by (simp add: parseAssets_chain truthyString_def resolveAssetPath_def)
  have part1: "path (parseAssetProperty prefix (AssetString (CHR ''~'' # rest))) = Some rest \<and>
   (\<forall>a. (\<forall>rest. a \<noteq> CHR ''~'' # rest) \<longrightarrow>
      path (parseAssetProperty prefix (AssetString a)) = Some (prefix @ ''/'' @ a)) \<and>
   path (parseAssetProperty prefix (AssetObject (Some (CHR ''~'' # rest)) as)) = Some rest \<and>
   (\<forall>a. (\<forall>rest. a \<noteq> CHR ''~'' # rest) \<longrightarrow>
      path (parseAssetProperty prefix (AssetObject (Some a) as)) = Some (prefix @ ''/'' @ a)) \<and>
   path (parseAssetProperty prefix (AssetObject None as)) = None \<and>
   attrs (parseAssetProperty prefix (AssetObject p as)) = as"
    using tilde plain by simp
  have part2: "css (normalizeConf ctx raw addr) = parseAssets ''src/css'' (raw_css raw) \<and>
   boot (normalizeConf ctx raw addr) = parseAssets ''boot'' (raw_boot raw)"
    by (simp add: normalizeConf_def)
  have dist: "distinct (map path (parseAssets prefix entries))"
    using eq dedupKeepFirst_distinct [of ?ys] by simp
  have part3: "parseAssets prefix entries = dedupKeepFirst ?ys \<and>
   (\<forall>asset \<in> set (parseAssets prefix entries). \<exists>p. path asset = Some p \<and> p \<noteq> []) \<and>
   distinct (map path (parseAssets prefix entries)) \<and>
   path ` set (parseAssets prefix entries) = path ` set ?ys"
    using eq truthy dist paths by blast
  have part4: "map Some (truthyAssets entries)
     = filter (\<lambda>e. e \<noteq> None \<and> e \<noteq> Some (AssetString [])) entries \<and>
   (\<forall>a. Some a \<in> set entries \<and> a \<noteq> AssetString [] \<and>
        truthyString (path (parseAssetProperty prefix a)) \<longrightarrow>
      path (parseAssetProperty prefix a) \<in> path ` set (parseAssets prefix entries)) \<and>
   (\<forall>asset \<in> set (parseAssets prefix entries).
      \<exists>a. Some a \<in> set entries \<and> a \<noteq> AssetString [] \<and> asset = parseAssetProperty prefix a)"
    using truthyAssets_filter [of entries] reach from_entry by blast
  have part5: "(\<forall>a others. a \<noteq> AssetString [] \<and> truthyString (path (parseAssetProperty prefix a)) \<longrightarrow>
      parseAssets prefix (Some a # others) =
        parseAssetProperty prefix a #
          filter (\<lambda>asset. path asset \<noteq> path (parseAssetProperty prefix a))
            (parseAssets prefix others)) \<and>
   (\<forall>others. parseAssets prefix (None # others) = parseAssets prefix others \<and>
      parseAssets prefix (Some (AssetString []) # others) = parseAssets prefix others) \<and>
   (\<forall>a others. \<not> truthyString (path (parseAssetProperty prefix a)) \<longrightarrow>
      parseAssets prefix (Some a # others) = parseAssets prefix others)"
    using parseAssets_keep [of _ prefix] parseAssets_skip [of prefix] by simp
  from part1 ex1 ex2 part3 part2 part4 part5 ex3 show ?thesis
    by (elim conjE) (intro conjI; assumption)
qed

theorem asset_parsing_witness:
  "path (parseAssetProperty ''src/css'' (AssetString ''foo.css'')) = Some ''src/css/foo.css'' \<and>
   path (parseAssetProperty ''boot'' (AssetObject (Some ''axios'') [(''server'', ''false'')]))
     = Some ''boot/axios'' \<and>
   parseAssets ''src/css''
     [Some (AssetString ''~custom/path''), None,
      Some (AssetObject (Some ''print.css'') [(''media'', ''print'')]),
      Some (AssetString []), Some (AssetString ''foo.css''), Some (AssetString ''~''),
      Some (AssetObject (Some ''foo.css'') [(''media'', ''screen'')]),
      Some (AssetObject None []), Some (AssetString ''~custom/path'')]
     = [\<lparr>path = Some ''custom/path'', attrs = []\<rparr>,
        \<lparr>path = Some ''src/css/print.css'', attrs = [(''media'', ''print'')]\<rparr>,
        \<lparr>path = Some ''src/css/foo.css'', attrs = []\<rparr>] \<and>
   Some ''src/css/print.css'' \<in> path ` set (parseAssets ''src/css''
     [Some (AssetString ''~custom/path''), None,
      Some (AssetObject (Some ''print.css'') [(''media'', ''print'')]),
      Some (AssetString []), Some (AssetString ''foo.css''), Some (AssetString ''~''),
      Some (AssetObject (Some ''foo.css'') [(''media'', ''screen'')]),
      Some (AssetObject None []), Some (AssetString ''~custom/path'')]) \<and>
   parseAssets ''boot'' [Some (AssetObject (Some ''axios'') [(''server'', ''false'')]), None]
     = [\<lparr>path = Some ''boot/axios'', attrs = [(''server'', ''false'')]\<rparr>]"
    (is "?a \<and> ?b \<and> parseAssets ''src/css'' ?entries = ?res \<and> ?c \<and> ?d")
proof -
  let ?obj = "AssetObject (Some ''print.css'') [(''media'', ''print'')]"
  let ?ax = "AssetObject (Some ''axios'') [(''server'', ''false'')]"
  note inst = asset_parsing [where prefix = "''src/css''" and entries = ?entries and rest = "[]"
      and as = "[]" and p = None and ctx = sampleCtx and raw = baseDefaults and addr = "(None, None)"]
  note instb = asset_parsing [where prefix = "''boot''" and entries = "[]" and rest = "[]"
      and as = "[(''server'', ''false'')]" and p = None and ctx = sampleCtx and raw = baseDefaults
      and addr = "(None, None)"]
  from inst have a: ?a
    by (elim conjE) assumption
  from instb have obj: "\<forall>a. (\<forall>rest. a \<noteq> CHR ''~'' # rest) \<longrightarrow>
      path (parseAssetProperty ''boot'' (AssetObject (Some a) [(''server'', ''false'')]))
        = Some (''boot'' @ ''/'' @ a)"
    by (elim conjE) assumption
  have nt: "\<forall>rest. ''axios'' \<noteq> CHR ''~'' # rest" by simp
  from obj nt have b: ?b by simp
  from inst have kept: "map Some (truthyAssets ?entries)
      = filter (\<lambda>e. e \<noteq> None \<and> e \<noteq> Some (AssetString [])) ?entries"
    by (elim conjE) assumption
  have "map Some (truthyAssets ?entries)
      = map Some [AssetString ''~custom/path'', ?obj, AssetString ''foo.css'', AssetString ''~'',
          AssetObject (Some ''foo.css'') [(''media'', ''screen'')], AssetObject None [],
          AssetString ''~custom/path'']"
    unfolding kept by simp
  then have ta: "truthyAssets ?entries
      = [AssetString ''~custom/path'', ?obj, AssetString ''foo.css'', AssetString ''~'',
          AssetObject (Some ''foo.css'') [(''media'', ''screen'')], AssetObject None [],
          AssetString ''~custom/path'']"
    by (simp only: inj_map_eq_map [OF inj_Some])
  from inst have "parseAssets ''src/css'' ?entries
      = dedupKeepFirst (filter (\<lambda>asset. truthyString (path asset))
          (map (parseAssetProperty ''src/css'') (truthyAssets ?entries)))"
    by (elim conjE) assumption
  then have r: "parseAssets ''src/css'' ?entries = ?res"
    unfolding ta by (simp add: truthyString_def resolveAssetPath_def)
  from inst have reach: "\<forall>a. Some a \<in> set ?entries \<and> a \<noteq> AssetString [] \<and>
        truthyString (path (parseAssetProperty ''src/css'' a)) \<longrightarrow>
      path (parseAssetProperty ''src/css'' a) \<in> path ` set (parseAssets ''src/css'' ?entries)"
    by (elim conjE) assumption
  have pre: "Some ?obj \<in> set ?entries \<and> ?obj \<noteq> AssetString [] \<and>
      truthyString (path (parseAssetProperty ''src/css'' ?obj))"
    by (simp add: truthyString_def resolveAssetPath_def)
  from reach [rule_format, OF pre] have c: ?c by (simp add: resolveAssetPath_def)
  from instb have keep: "\<forall>a others. a \<noteq> AssetString [] \<and>
        truthyString (path (parseAssetProperty ''boot'' a)) \<longrightarrow>
      parseAssets ''boot'' (Some a # others) =
        parseAssetProperty ''boot'' a #
          filter (\<lambda>asset. path asset \<noteq> path (parseAssetProperty ''boot'' a))
            (parseAssets ''boot'' others)"
    by (elim conjE) assumption
  from instb have skip: "\<forall>others. parseAssets ''boot'' (None # others) = parseAssets ''boot'' others \<and>
      parseAssets ''boot'' (Some (AssetString []) # others) = parseAssets ''boot'' others"
    by (elim conjE) assumption
  from instb have "parseAssets ''boot'' []
      = dedupKeepFirst (filter (\<lambda>asset. truthyString (path asset))
          (map (parseAssetProperty ''boot'') (truthyAssets [])))"
    by (elim conjE) assumption
  then have e0: "parseAssets ''boot'' [] = []" by simp
  have pre2: "?ax \<noteq> AssetString [] \<and> truthyString (path (parseAssetProperty ''boot'' ?ax))"
    by (simp add: truthyString_def resolveAssetPath_def)
  have "parseAssets ''boot'' [Some ?ax, None]
      = parseAssetProperty ''boot'' ?ax #
          filter (\<lambda>asset. path asset \<noteq> path (parseAssetProperty ''boot'' ?ax))
            (parseAssets ''boot'' [None])"
    using keep [rule_format, OF pre2] .
  moreover have "parseAssets ''boot'' [None] = parseAssets ''boot'' []"
    using skip by blast
  ultimately have d: ?d using e0 by (simp add: resolveAssetPath_def)
  from a b r c d show ?thesis by (intro conjI)
qed

subsection \<open>The host and port of the dev server\<close>

text \<open>
  C6. Outside development or in the browser extension mode the block does not run and
  host and port stay as configured. Otherwise the pair handed to the address resolution is:
  the host of the command line when given, else the configured one, else \<open>0.0.0.0\<close>; the
  port of the command line when given, else the configured one, else the entry of the
  mode in the table 9000, 9100, 9200, 9300, 9400, 9500, plus 50 exactly when the mode is
  \<open>ssr\<close> and \<open>ssr.pwa\<close> is \<open>true\<close>. \<open>Given\<close> is JavaScript truthiness: an empty host and the
  port 0 count as absent.
\<close>

theorem devServer_host_port:
  "(\<not> (dev ctx \<and> modeName ctx \<noteq> BexMode) \<longrightarrow>
      devServer ctx opts env raw b s = (Value (raw_devServer_host raw, raw_devServer_port raw), s)) \<and>
   (dev ctx \<and> modeName ctx \<noteq> BexMode \<longrightarrow>
      devServer ctx opts env raw b s =
        resolveAddress ctx opts env (requestedHost opts raw, requestedPort ctx opts raw) b
          (portTip opts raw s)) \<and>
   (dev ctx \<and> modeName ctx \<noteq> BexMode \<and> \<not> verifyAddress opts \<and> address s = None \<longrightarrow>
      fst (devServer ctx opts env raw b s)
        = Value (requestedHost opts raw, requestedPort ctx opts raw)) \<and>
   (truthyString (opts_host opts) \<longrightarrow> requestedHost opts raw = opts_host opts) \<and>
   (\<not> truthyString (opts_host opts) \<and> truthyString (raw_devServer_host raw) \<longrightarrow>
      requestedHost opts raw = raw_devServer_host raw) \<and>
   (\<not> truthyString (opts_host opts) \<and> \<not> truthyString (raw_devServer_host raw) \<longrightarrow>
      requestedHost opts raw = Some ''0.0.0.0'') \<and>
   (truthyNumber (opts_port opts) \<longrightarrow> requestedPort ctx opts raw = opts_port opts) \<and>
   (\<not> truthyNumber (opts_port opts) \<and> truthyNumber (raw_devServer_port raw) \<longrightarrow>
      requestedPort ctx opts raw = raw_devServer_port raw) \<and>
   (\<not> truthyNumber (opts_port opts) \<and> \<not> truthyNumber (raw_devServer_port raw) \<and>
    modeName ctx \<noteq> BexMode \<longrightarrow>
      requestedPort ctx opts raw =
        Some ((case modeName ctx of
                 Spa \<Rightarrow> 9000 | Ssr \<Rightarrow> 9100 | Pwa \<Rightarrow> 9200 | Electron \<Rightarrow> 9300
               | Cordova \<Rightarrow> 9400 | Capacitor \<Rightarrow> 9500 | BexMode \<Rightarrow> 0)
              + (if modeName ctx = Ssr \<and> raw_ssr_pwa raw then 50 else 0)))"
proof -
  have off: "devServer ctx opts env raw b s
      = (Value (raw_devServer_host raw, raw_devServer_port raw), s)"
    if "\<not> (dev ctx \<and> modeName ctx \<noteq> BexMode)"
    using that by (auto simp: devServer_def mode_def)
  have on: "devServer ctx opts env raw b s =
        resolveAddress ctx opts env (requestedHost opts raw, requestedPort ctx opts raw) b
          (portTip opts raw s)"
    if "dev ctx \<and> modeName ctx \<noteq> BexMode"
    using that by (simp add: devServer_def mode_def)
  have plain: "fst (devServer ctx opts env raw b s)
        = Value (requestedHost opts raw, requestedPort ctx opts raw)"
    if "dev ctx \<and> modeName ctx \<noteq> BexMode \<and> \<not> verifyAddress opts \<and> address s = None"
    using that on by (simp add: resolveAddress_def negotiate_def portTip_def emit_def)
  have port: "requestedPort ctx opts raw =
        Some ((case modeName ctx of
                 Spa \<Rightarrow> 9000 | Ssr \<Rightarrow> 9100 | Pwa \<Rightarrow> 9200 | Electron \<Rightarrow> 9300
               | Cordova \<Rightarrow> 9400 | Capacitor \<Rightarrow> 9500 | BexMode \<Rightarrow> 0)
              + (if modeName ctx = Ssr \<and> raw_ssr_pwa raw then 50 else 0))"
    if "\<not> truthyNumber (opts_port opts) \<and> \<not> truthyNumber (raw_devServer_port raw) \<and>
        modeName ctx \<noteq> BexMode"
    using that by (cases "modeName ctx") (simp_all add: requestedPort_def mode_def)
  show ?thesis
    using off on plain port by (simp add: requestedHost_def requestedPort_def)
qed

theorem devServer_host_port_witness:
  "fst (devServer sampleCtx sampleOpts sampleEnv baseDefaults True initialSession)
     = Value (Some ''0.0.0.0'', Some 9000) \<and>
   requestedPort \<lparr>modeName = Ssr, dev = True\<rparr> sampleOpts (baseDefaults\<lparr>raw_ssr_pwa := True\<rparr>)
     = Some 9150 \<and>
   requestedPort \<lparr>modeName = Pwa, dev = True\<rparr> sampleOpts (baseDefaults\<lparr>raw_ssr_pwa := True\<rparr>)
     = Some 9200 \<and>
   requestedPort sampleCtx (sampleOpts\<lparr>opts_port := Some 8000\<rparr>)
     (baseDefaults\<lparr>raw_devServer_port := Some 8080\<rparr>) = Some 8000 \<and>
   requestedPort sampleCtx sampleOpts (baseDefaults\<lparr>raw_devServer_port := Some 8080\<rparr>) = Some 8080 \<and>
   requestedHost (sampleOpts\<lparr>opts_host := Some ''10.0.0.1''\<rparr>)
     (baseDefaults\<lparr>raw_devServer_host := Some ''localhost''\<rparr>) = Some ''10.0.0.1'' \<and>
   requestedHost sampleOpts (baseDefaults\<lparr>raw_devServer_host := Some ''localhost''\<rparr>)
     = Some ''localhost'' \<and>
   devServer \<lparr>modeName = BexMode, dev = True\<rparr> (sampleOpts\<lparr>opts_port := Some 8000\<rparr>) sampleEnv
     baseDefaults True initialSession = (Value (None, None), initialSession) \<and>
   devServer \<lparr>modeName = Spa, dev = False\<rparr> (sampleOpts\<lparr>opts_port := Some 8000\<rparr>) sampleEnv
     baseDefaults True initialSession = (Value (None, None), initialSession)"
proof -
  note d = sampleCtx_def sampleOpts_def baseDefaults_def truthyNumber_def truthyString_def
  have 1: "fst (devServer sampleCtx sampleOpts sampleEnv baseDefaults True initialSession)
     = Value (Some ''0.0.0.0'', Some 9000)"
    using devServer_host_port [of sampleCtx sampleOpts sampleEnv baseDefaults True initialSession]
    by (simp add: d cycle_defs sampleEnv_def initialSession_def)
  have 2: "requestedPort \<lparr>modeName = Ssr, dev = True\<rparr> sampleOpts (baseDefaults\<lparr>raw_ssr_pwa := True\<rparr>)
     = Some 9150"
    using devServer_host_port [of "\<lparr>modeName = Ssr, dev = True\<rparr>" sampleOpts sampleEnv
        "baseDefaults\<lparr>raw_ssr_pwa := True\<rparr>" True initialSession]
    by (simp add: d)
  have 3: "requestedPort \<lparr>modeName = Pwa, dev = True\<rparr> sampleOpts (baseDefaults\<lparr>raw_ssr_pwa := True\<rparr>)
     = Some 9200"
    using devServer_host_port [of "\<lparr>modeName = Pwa, dev = True\<rparr>" sampleOpts sampleEnv
        "baseDefaults\<lparr>raw_ssr_pwa := True\<rparr>" True initialSession]
    by (simp add: d)
  have 4: "requestedPort sampleCtx (sampleOpts\<lparr>opts_port := Some 8000\<rparr>)
     (baseDefaults\<lparr>raw_devServer_port := Some 8080\<rparr>) = Some 8000"
    using devServer_host_port [of sampleCtx "sampleOpts\<lparr>opts_port := Some 8000\<rparr>" sampleEnv
        "baseDefaults\<lparr>raw_devServer_port := Some 8080\<rparr>" True initialSession]
    by (simp add: d)
  have 5: "requestedPort sampleCtx sampleOpts (baseDefaults\<lparr>raw_devServer_port := Some 8080\<rparr>)
      = Some 8080"
    using devServer_host_port [of sampleCtx sampleOpts sampleEnv
        "baseDefaults\<lparr>raw_devServer_port := Some 8080\<rparr>" True initialSession]
    by (simp add: d)
  have 6: "requestedHost (sampleOpts\<lparr>opts_host := Some ''10.0.0.1''\<rparr>)
     (baseDefaults\<lparr>raw_devServer_host := Some ''localhost''\<rparr>) = Some ''10.0.0.1''"
    using devServer_host_port [of sampleCtx "sampleOpts\<lparr>opts_host := Some ''10.0.0.1''\<rparr>" sampleEnv
        "baseDefaults\<lparr>raw_devServer_host := Some ''localhost''\<rparr>" True initialSession]
    by (simp add: d)
  have 7: "requestedHost sampleOpts (baseDefaults\<lparr>raw_devServer_host := Some ''localhost''\<rparr>)
     = Some ''localhost''"
    using devServer_host_port [of sampleCtx sampleOpts sampleEnv
        "baseDefaults\<lparr>raw_devServer_host := Some ''localhost''\<rparr>" True initialSession]
    by (simp add: d)
  have 8: "devServer \<lparr>modeName = BexMode, dev = True\<rparr> (sampleOpts\<lparr>opts_port := Some 8000\<rparr>) sampleEnv
     baseDefaults True initialSession = (Value (None, None), initialSession)"
    using devServer_host_port [of "\<lparr>modeName = BexMode, dev = True\<rparr>"
        "sampleOpts\<lparr>opts_port := Some 8000\<rparr>" sampleEnv baseDefaults True initialSession]
    by (simp add: baseDefaults_def)
  have 9: "devServer \<lparr>modeName = Spa, dev = False\<rparr> (sampleOpts\<lparr>opts_port := Some 8000\<rparr>) sampleEnv
     baseDefaults True initialSession = (Value (None, None), initialSession)"
    using devServer_host_port [of "\<lparr>modeName = Spa, dev = False\<rparr>"
        "sampleOpts\<lparr>opts_port := Some 8000\<rparr>" sampleEnv baseDefaults True initialSession]
    by (simp add: baseDefaults_def)
  show ?thesis using 1 2 3 4 5 6 7 8 9 by simp
qed

subsection \<open>The cache of the negotiated address\<close>

lemma negotiate_address:
  "address (snd (negotiate ctx opts env a b s)) =
     (case fst (negotiate ctx opts env a b s) of Value to \<Rightarrow> Some (a, to) | _ \<Rightarrow> address s)"
proof (cases "verifyAddress opts")
  case False
  then show ?thesis by (simp add: negotiate_def)
next
  case True
  obtain r s1 where o: "onAddress env a (modeName ctx) s = (r, s1)"
    by (cases "onAddress env a (modeName ctx) s")
  have "address (snd (onAddress env a (modeName ctx) s)) = address s"
    by (auto simp: onAddress_def onProbeError_def discoverExternalIP_def emit_def Let_def
        split: probe.splits)
  with o have "address s1 = address s" by simp
  with True o show ?thesis
    by (cases r) (auto simp: negotiate_def failWith_def fatal_def warn_def emit_def)
qed

lemma onAddress_probes:
  "CallFindClosestOpenPort (snd a) (probedHost env a m s) \<in> set (events (snd (onAddress env a m s)))"
  by (auto simp: onAddress_def onProbeError_def emit_def Let_def split: probe.splits)

lemma negotiate_probes:
  "verifyAddress opts \<Longrightarrow>
     CallFindClosestOpenPort (snd a) (probedHost env a (modeName ctx) s)
       \<in> set (events (snd (negotiate ctx opts env a b s)))"
proof -
  assume v: "verifyAddress opts"
  obtain r s1 where o: "onAddress env a (modeName ctx) s = (r, s1)"
    by (cases "onAddress env a (modeName ctx) s")
  with onAddress_probes [of a env "modeName ctx" s]
  have "CallFindClosestOpenPort (snd a) (probedHost env a (modeName ctx) s) \<in> set (events s1)"
    by simp
  with v o show ?thesis
    by (cases r) (auto simp: negotiate_def failWith_def fatal_def warn_def emit_def)
qed

lemma address_miss:
  assumes "\<forall>to. address s \<noteq> Some (a, to)"
  shows "resolveAddress ctx opts env a b s = negotiate ctx opts env a b s"
proof (cases "address s")
  case None
  then show ?thesis by (simp add: resolveAddress_def)
next
  case (Some ft)
  with assms have "\<not> (fst (fst ft) = fst a \<and> snd (fst ft) = snd a)"
    by (cases ft) (auto simp: prod_eq_iff)
  with Some show ?thesis by (cases ft) (auto simp: resolveAddress_def)
qed

lemma resolveAddress_replaced:
  assumes "address (snd (resolveAddress ctx opts env a b s)) \<noteq> address s"
  shows "(\<forall>t. address s \<noteq> Some (a, t)) \<and>
         (\<exists>to. fst (resolveAddress ctx opts env a b s) = Value to \<and>
               address (snd (resolveAddress ctx opts env a b s)) = Some (a, to))"
proof -
  have m: "\<forall>t. address s \<noteq> Some (a, t)"
  proof (rule ccontr)
    assume "\<not> (\<forall>t. address s \<noteq> Some (a, t))"
    then obtain t where "address s = Some (a, t)" by blast
    then have "resolveAddress ctx opts env a b s = (Value t, s)"
      by (simp add: resolveAddress_def)
    with assms show False by simp
  qed
  then have "resolveAddress ctx opts env a b s = negotiate ctx opts env a b s"
    by (rule address_miss)
  with assms negotiate_address [of ctx opts env a b s] m show ?thesis
    by (cases "fst (negotiate ctx opts env a b s)") auto
qed

lemma devServer_address:
  assumes "address (snd (devServer ctx opts env raw b s)) \<noteq> address s"
  shows "(\<forall>t. address s \<noteq> Some ((requestedHost opts raw, requestedPort ctx opts raw), t)) \<and>
         (\<exists>to. address (snd (devServer ctx opts env raw b s))
                 = Some ((requestedHost opts raw, requestedPort ctx opts raw), to))"
proof -
  let ?a = "(requestedHost opts raw, requestedPort ctx opts raw)"
  let ?s = "portTip opts raw s"
  have p: "address ?s = address s" by (simp add: portTip_def emit_def)
  from assms have d: "devServer ctx opts env raw b s = resolveAddress ctx opts env ?a b ?s"
    by (auto simp: devServer_def split: if_splits)
  with assms p have "address (snd (resolveAddress ctx opts env ?a b ?s)) \<noteq> address ?s" by simp
  from resolveAddress_replaced [OF this] d p show ?thesis by auto
qed

lemma failWith_address: "address (snd (failWith f b s :: 'a ret \<times> session)) = address s"
  by (simp add: failWith_def fatal_def warn_def emit_def)

lemma validate_address: "address (snd (validate ctx env raw a b s)) = address s"
  by (simp add: validate_def failWith_address)

lemma loadUserCfg_address: "address (snd (loadUserCfg fn b s)) = address s"
  by (simp add: loadUserCfg_def failWith_address removeSync_def emit_def
      split: exported.splits factory.splits)

lemma extendConf_address: "address (snd (extendConf env v b s)) = address s"
  by (simp add: extendConf_def failWith_address emit_def split: option.splits)

lemma normalizeUserCfg_address:
  assumes "address (snd (normalizeUserCfg ctx opts env b v s)) \<noteq> address s"
  shows "\<exists>raw to.
           (\<forall>t. address s \<noteq> Some ((requestedHost opts raw, requestedPort ctx opts raw), t)) \<and>
           address (snd (normalizeUserCfg ctx opts env b v s))
             = Some ((requestedHost opts raw, requestedPort ctx opts raw), to)"
proof -
  obtain r1 s1 where e: "extendConf env v b s = (r1, s1)"
    by (cases "extendConf env v b s")
  with extendConf_address [of env v b s] have a1: "address s1 = address s" by simp
  show ?thesis
  proof (cases r1)
    case (Value raw)
    obtain r2 s2 where d: "devServer ctx opts env raw b s1 = (r2, s2)"
      by (cases "devServer ctx opts env raw b s1")
    have "address (snd (normalizeUserCfg ctx opts env b v s)) = address s2"
      using e Value d validate_address
      by (cases r2) (simp_all add: normalizeUserCfg_def andThen_def)
    with assms a1 d devServer_address [of ctx opts env raw b s1] show ?thesis by auto
  qed (use assms e a1 in \<open>simp_all add: normalizeUserCfg_def andThen_def\<close>)
qed

lemma computeConfig_address:
  assumes "address (snd (computeConfig ctx opts env fn b s)) \<noteq> address s"
  shows "\<exists>raw to.
           (\<forall>t. address s \<noteq> Some ((requestedHost opts raw, requestedPort ctx opts raw), t)) \<and>
           address (snd (computeConfig ctx opts env fn b s))
             = Some ((requestedHost opts raw, requestedPort ctx opts raw), to)"
proof -
  obtain r0 s0 where l: "loadUserCfg fn b s = (r0, s0)"
    by (cases "loadUserCfg fn b s")
  with loadUserCfg_address [of fn b s] have a0: "address s0 = address s" by simp
  show ?thesis
  proof (cases r0)
    case (Value v)
    with l have "computeConfig ctx opts env fn b s = normalizeUserCfg ctx opts env b v s0"
      by (simp add: computeConfig_def andThen_def)
    with assms a0 normalizeUserCfg_address [of ctx opts env b v s0] show ?thesis by simp
  qed (use assms l a0 in \<open>simp_all add: computeConfig_def andThen_def\<close>)
qed

lemma onEnd_address:
  assumes "address (onEnd ctx opts env s) \<noteq> address s"
  shows "\<exists>raw to.
           (\<forall>t. address s \<noteq> Some ((requestedHost opts raw, requestedPort ctx opts raw), t)) \<and>
           address (onEnd ctx opts env s)
             = Some ((requestedHost opts raw, requestedPort ctx opts raw), to)"
proof -
  from assms obtain fn where
    fn: "importResult env = Imported fn" "compileErrors env = 0" "isFirst s \<or> isWatching s"
    by (cases "importResult env")
      (auto simp: onEnd_def fatal_def warn_def emit_def removeSync_def split: if_splits)
  obtain r s1 where cc: "computeConfig ctx opts env fn (isFirst s) s = (r, s1)"
    by (cases "computeConfig ctx opts env fn (isFirst s) s")
  with fn have "address (onEnd ctx opts env s) = address s1"
    by (cases r) (auto simp: onEnd_def emit_def)
  with assms cc computeConfig_address [of ctx opts env fn "isFirst s" s] show ?thesis by simp
qed

text \<open>
  C4. When the requested pair is the \<open>from\<close> of the cached negotiation, the cached \<open>to\<close> is
  returned and the state does not change at all: no probe, no warning, the same cache. So
  anything happening, a probe in particular, means the pair differs from the cached one;
  for such a pair the negotiation runs, with a probe when \<open>verifyAddress\<close> is set. The cache
  changes only when the pair differed and the negotiation returned an address, and then
  it holds the requested pair and that address. After any call that returned an address,
  a later call for the same pair, whatever the collaborators would answer then, returns
  that address and leaves the state alone; inside \<open>computeConfig\<close> such a call emits at most
  the tip about the port. Over a whole cycle of the watcher the cache changes only into
  the negotiation of a requested pair that was not the cached one.
\<close>

theorem address_negotiation_cached:
  "(address s = Some (a, to) \<longrightarrow> resolveAddress ctx opts env a b s = (Value to, s)) \<and>
   (snd (resolveAddress ctx opts env a b s) \<noteq> s \<longrightarrow> (\<forall>to. address s \<noteq> Some (a, to))) \<and>
   ((\<forall>to. address s \<noteq> Some (a, to)) \<longrightarrow>
      resolveAddress ctx opts env a b s = negotiate ctx opts env a b s \<and>
      (verifyAddress opts \<longrightarrow>
         CallFindClosestOpenPort (snd a) (probedHost env a (modeName ctx) s)
           \<in> set (events (snd (resolveAddress ctx opts env a b s))))) \<and>
   (address (snd (resolveAddress ctx opts env a b s)) \<noteq> address s \<longrightarrow>
      (\<forall>to. address s \<noteq> Some (a, to)) \<and>
      (\<exists>to. fst (resolveAddress ctx opts env a b s) = Value to \<and>
            address (snd (resolveAddress ctx opts env a b s)) = Some (a, to))) \<and>
   (\<forall>to. fst (resolveAddress ctx opts env a b s) = Value to \<longrightarrow>
      address (snd (resolveAddress ctx opts env a b s)) = Some (a, to) \<and>
      (\<forall>env' b' s'. address s' = address (snd (resolveAddress ctx opts env a b s)) \<longrightarrow>
         resolveAddress ctx opts env' a b' s' = (Value to, s'))) \<and>
   (dev ctx \<and> modeName ctx \<noteq> BexMode \<and>
    address s = Some ((requestedHost opts raw, requestedPort ctx opts raw), to) \<longrightarrow>
      devServer ctx opts env raw b s = (Value to, portTip opts raw s)) \<and>
   (address (onEnd ctx opts env s) \<noteq> address s \<longrightarrow>
      (\<exists>raw' to'.
         (\<forall>t. address s \<noteq> Some ((requestedHost opts raw', requestedPort ctx opts raw'), t)) \<and>
         address (onEnd ctx opts env s)
           = Some ((requestedHost opts raw', requestedPort ctx opts raw'), to')))"
proof -
  have hit': "resolveAddress ctx opts env' a' b' s' = (Value to', s')"
    if "address s' = Some (a', to')" for env' b' s' to' a'
    using that by (simp add: resolveAddress_def)
  note hit = hit' [where a' = a]
  have miss: "resolveAddress ctx opts env a b s = negotiate ctx opts env a b s"
    if "\<forall>to. address s \<noteq> Some (a, to)"
    using that by (rule address_miss)
  have changed: "\<forall>to. address s \<noteq> Some (a, to)" if "snd (resolveAddress ctx opts env a b s) \<noteq> s"
    using that hit [of s _ env b] by auto
  have probe: "CallFindClosestOpenPort (snd a) (probedHost env a (modeName ctx) s)
           \<in> set (events (snd (resolveAddress ctx opts env a b s)))"
    if "\<forall>to. address s \<noteq> Some (a, to)" "verifyAddress opts"
    using miss [OF that(1)] negotiate_probes [OF that(2), of a env ctx s b] by simp
  have val: "address (snd (resolveAddress ctx opts env a b s)) = Some (a, to')"
    if "fst (resolveAddress ctx opts env a b s) = Value to'" for to'
  proof (cases "\<exists>t. address s = Some (a, t)")
    case True
    then obtain t where t: "address s = Some (a, t)" by blast
    with hit [OF t, of env b] that show ?thesis by simp
  next
    case False
    then have "resolveAddress ctx opts env a b s = negotiate ctx opts env a b s"
      using miss by blast
    with that negotiate_address [of ctx opts env a b s] show ?thesis by simp
  qed
  have repl: "(\<forall>to. address s \<noteq> Some (a, to)) \<and>
      (\<exists>to. fst (resolveAddress ctx opts env a b s) = Value to \<and>
            address (snd (resolveAddress ctx opts env a b s)) = Some (a, to))"
    if c: "address (snd (resolveAddress ctx opts env a b s)) \<noteq> address s"
  proof -
    from c have "snd (resolveAddress ctx opts env a b s) \<noteq> s" by auto
    then have m: "\<forall>to. address s \<noteq> Some (a, to)" by (rule changed)
    with c miss negotiate_address [of ctx opts env a b s]
    have "\<exists>to. fst (resolveAddress ctx opts env a b s) = Value to"
      by (cases "fst (negotiate ctx opts env a b s)") auto
    with m val show ?thesis by blast
  qed
  have dev: "devServer ctx opts env raw b s = (Value to, portTip opts raw s)"
    if "dev ctx \<and> modeName ctx \<noteq> BexMode \<and>
        address s = Some ((requestedHost opts raw, requestedPort ctx opts raw), to)"
  proof -
    from that have "address (portTip opts raw s)
        = Some ((requestedHost opts raw, requestedPort ctx opts raw), to)"
      by (simp add: portTip_def emit_def)
    from hit' [OF this, of env b] that show ?thesis by (simp add: devServer_def mode_def)
  qed
  have again: "address (snd (resolveAddress ctx opts env a b s)) = Some (a, to') \<and>
      (\<forall>env' b' s'. address s' = address (snd (resolveAddress ctx opts env a b s)) \<longrightarrow>
         resolveAddress ctx opts env' a b' s' = (Value to', s'))"
    if "fst (resolveAddress ctx opts env a b s) = Value to'" for to'
    using val [OF that] hit by simp
  have c1: "address s = Some (a, to) \<longrightarrow> resolveAddress ctx opts env a b s = (Value to, s)"
    using hit by blast
  have c2: "snd (resolveAddress ctx opts env a b s) \<noteq> s \<longrightarrow> (\<forall>to. address s \<noteq> Some (a, to))"
    using changed by blast
  have c3: "(\<forall>to. address s \<noteq> Some (a, to)) \<longrightarrow>
      resolveAddress ctx opts env a b s = negotiate ctx opts env a b s \<and>
      (verifyAddress opts \<longrightarrow>
         CallFindClosestOpenPort (snd a) (probedHost env a (modeName ctx) s)
           \<in> set (events (snd (resolveAddress ctx opts env a b s))))"
    using miss probe by blast
  have c7: "address (onEnd ctx opts env s) \<noteq> address s \<longrightarrow>
      (\<exists>raw' to'.
         (\<forall>t. address s \<noteq> Some ((requestedHost opts raw', requestedPort ctx opts raw'), t)) \<and>
         address (onEnd ctx opts env s)
           = Some ((requestedHost opts raw', requestedPort ctx opts raw'), to'))"
    using onEnd_address [of ctx opts env s] by blast
  show ?thesis
    using c1 c2 c3 repl again dev c7 by blast
qed

theorem address_negotiation_cached_witness:
  "resolveAddress sampleCtx sampleOpts
     (sampleEnv\<lparr>findClosestOpenPort := (\<lambda>port host. OpenPort 9001)\<rparr>)
     (Some ''0.0.0.0'', Some 9000) True initialSession
   = (Value (Some ''0.0.0.0'', Some 9001),
      initialSession\<lparr>addressRunning := True,
        events := [CallFindClosestOpenPort (Some 9000) (Some ''0.0.0.0''), WarnClosestPort 9001],
        address := Some ((Some ''0.0.0.0'', Some 9000), (Some ''0.0.0.0'', Some 9001))\<rparr>) \<and>
   resolveAddress sampleCtx sampleOpts
     (sampleEnv\<lparr>findClosestOpenPort := (\<lambda>port host. ProbeThrows OtherNetworkError)\<rparr>)
     (Some ''0.0.0.0'', Some 9000) False
     (initialSession\<lparr>addressRunning := True,
        events := [CallFindClosestOpenPort (Some 9000) (Some ''0.0.0.0''), WarnClosestPort 9001],
        address := Some ((Some ''0.0.0.0'', Some 9000), (Some ''0.0.0.0'', Some 9001))\<rparr>)
   = (Value (Some ''0.0.0.0'', Some 9001),
      initialSession\<lparr>addressRunning := True,
        events := [CallFindClosestOpenPort (Some 9000) (Some ''0.0.0.0''), WarnClosestPort 9001],
        address := Some ((Some ''0.0.0.0'', Some 9000), (Some ''0.0.0.0'', Some 9001))\<rparr>) \<and>
   CallFindClosestOpenPort (Some 8080) (Some ''0.0.0.0'')
     \<in> set (events (snd (resolveAddress sampleCtx sampleOpts sampleEnv (Some ''0.0.0.0'', Some 8080) False
          (initialSession\<lparr>addressRunning := True,
             events := [CallFindClosestOpenPort (Some 9000) (Some ''0.0.0.0''), WarnClosestPort 9001],
             address := Some ((Some ''0.0.0.0'', Some 9000), (Some ''0.0.0.0'', Some 9001))\<rparr>))))"
proof -
  let ?busy = "sampleEnv\<lparr>findClosestOpenPort := (\<lambda>port host. OpenPort 9001)\<rparr>"
  let ?down = "sampleEnv\<lparr>findClosestOpenPort := (\<lambda>port host. ProbeThrows OtherNetworkError)\<rparr>"
  let ?a = "(Some ''0.0.0.0'', Some (9000::int))"
  let ?to = "(Some ''0.0.0.0'', Some (9001::int))"
  let ?a' = "(Some ''0.0.0.0'', Some (8080::int))"
  let ?s1 = "initialSession\<lparr>addressRunning := True,
        events := [CallFindClosestOpenPort (Some 9000) (Some ''0.0.0.0''), WarnClosestPort 9001],
        address := Some (?a, ?to)\<rparr>"
  have first: "resolveAddress sampleCtx sampleOpts ?busy ?a True initialSession = (Value ?to, ?s1)"
    by (simp add: cycle_defs sample_defs)
  have "fst (resolveAddress sampleCtx sampleOpts ?busy ?a True initialSession) = Value ?to"
    "address ?s1 = address (snd (resolveAddress sampleCtx sampleOpts ?busy ?a True initialSession))"
    using first by simp_all
  then have second: "resolveAddress sampleCtx sampleOpts ?down ?a False ?s1 = (Value ?to, ?s1)"
    using address_negotiation_cached [where s = initialSession and a = ?a and ctx = sampleCtx
        and opts = sampleOpts and env = ?busy and b = True]
    by blast
  have miss: "\<forall>to. address ?s1 \<noteq> Some (?a', to)" "verifyAddress sampleOpts"
    by (simp_all add: sampleOpts_def)
  have ph: "probedHost sampleEnv ?a' (modeName sampleCtx) ?s1 = Some ''0.0.0.0''"
    by (simp add: probedHost_def needsExternalIP_def sampleCtx_def)
  have "CallFindClosestOpenPort (snd ?a') (probedHost sampleEnv ?a' (modeName sampleCtx) ?s1)
     \<in> set (events (snd (resolveAddress sampleCtx sampleOpts sampleEnv ?a' False ?s1)))"
    using address_negotiation_cached [where s = ?s1 and a = ?a' and ctx = sampleCtx
        and opts = sampleOpts and env = sampleEnv and b = False] miss
    by blast
  then have third: "CallFindClosestOpenPort (Some 8080) (Some ''0.0.0.0'')
     \<in> set (events (snd (resolveAddress sampleCtx sampleOpts sampleEnv ?a' False ?s1)))"
    by (simp only: ph snd_conv)
  show ?thesis using first second third by simp
qed

subsection \<open>A failing probe\<close>

lemma onAddress_throws:
  assumes "findClosestOpenPort env (snd a) (probedHost env a m s) = ProbeThrows e"
  shows "onAddress env a m s =
           onProbeError e (emit (CallFindClosestOpenPort (snd a) (probedHost env a m s))
             (discoverExternalIP env a m s))"
  using assms by (simp add: onAddress_def Let_def)

lemma onProbeError_result:
  "WarnNetwork e \<in> set (events (snd (onProbeError e s))) \<and>
   address (snd (onProbeError e s)) = address s \<and>
   addressRunning (snd (onProbeError e s)) = addressRunning s \<and>
   (\<not> addressRunning s \<longrightarrow>
      fst (onProbeError e s) = Exited \<and> terminated (snd (onProbeError e s)) \<and>
      last (events (snd (onProbeError e s))) = ProcessExit) \<and>
   (addressRunning s \<longrightarrow>
      fst (onProbeError e s) = Undefined \<and> terminated (snd (onProbeError e s)) = terminated s)"
  by (simp add: onProbeError_def emit_def Let_def)

lemma negotiate_cases:
  "(\<exists>t. fst (negotiate ctx opts env a b s) = Value t) \<or>
   fst (negotiate ctx opts env a b s) = (if b \<or> \<not> addressRunning s then Exited else Undefined)"
proof (cases "verifyAddress opts")
  case False
  then show ?thesis by (simp add: negotiate_def)
next
  case True
  let ?s1 = "emit (CallFindClosestOpenPort (snd a) (probedHost env a (modeName ctx) s))
             (discoverExternalIP env a (modeName ctx) s)"
  have st: "addressRunning ?s1 = addressRunning s"
    by (simp add: emit_def discoverExternalIP_def)
  show ?thesis
  proof (cases "findClosestOpenPort env (snd a) (probedHost env a (modeName ctx) s)")
    case (OpenPort p)
    with True show ?thesis by (simp add: negotiate_def onAddress_def Let_def)
  next
    case (ProbeThrows e)
    from onAddress_throws [OF ProbeThrows] onProbeError_result [of e ?s1] st
    have "(\<not> addressRunning s \<longrightarrow> fst (onAddress env a (modeName ctx) s) = Exited) \<and>
          (addressRunning s \<longrightarrow> fst (onAddress env a (modeName ctx) s) = Undefined)"
      by simp
    with True show ?thesis
      by (cases "onAddress env a (modeName ctx) s")
        (auto simp: negotiate_def failWith_def)
  qed
qed

lemma devServer_cases:
  "(\<exists>t. fst (devServer ctx opts env raw b s) = Value t) \<or>
   fst (devServer ctx opts env raw b s) = (if b \<or> \<not> addressRunning s then Exited else Undefined)"
proof (cases "dev ctx \<and> \<not> mode ctx BexMode")
  case False
  then show ?thesis by (auto simp: devServer_def)
next
  case True
  let ?a = "(requestedHost opts raw, requestedPort ctx opts raw)"
  let ?s = "portTip opts raw s"
  have ar: "addressRunning ?s = addressRunning s" by (simp add: portTip_def emit_def)
  show ?thesis
  proof (cases "\<exists>to. address ?s = Some (?a, to)")
    case hit: True
    then obtain to where "address ?s = Some (?a, to)" by blast
    then have "resolveAddress ctx opts env ?a b ?s = (Value to, ?s)"
      by (simp add: resolveAddress_def)
    with True show ?thesis by (simp add: devServer_def)
  next
    case False
    then have "resolveAddress ctx opts env ?a b ?s = negotiate ctx opts env ?a b ?s"
      using address_miss [of ?s ?a ctx opts env b] by blast
    with True negotiate_cases [of ctx opts env ?a b ?s] ar show ?thesis
      by (simp add: devServer_def)
  qed
qed

lemma onEnd_network_failure:
  assumes "cycleFailure ctx opts env s = Some NetworkFailure" and "isFirst s \<or> isWatching s"
  shows "firstBuildIsDone (onEnd ctx opts env s) = firstBuildIsDone s \<and>
         watchCalls (onEnd ctx opts env s) = watchCalls s \<and>
         terminated (onEnd ctx opts env s) = (terminated s \<or> isFirst s \<or> \<not> addressRunning s)"
proof -
  from assms(1) obtain v raw where
    c: "compileErrors env = 0" and
    i: "importResult env = Imported (Function (Resolves v))" and
    o: "sameAsObject v" and
    h: "runAppExtensionHook env (mergedConf env v) = Some raw" and
    d: "\<And>t. fst (devServer ctx opts env raw (isFirst s) (removeSync s)) \<noteq> Value t"
    by (auto simp: cycleFailure_def
        split: imported.splits exported.splits factory.splits option.splits ret.splits if_splits)
  obtain r s2 where ds: "devServer ctx opts env raw (isFirst s) (removeSync s) = (r, s2)"
    by (cases "devServer ctx opts env raw (isFirst s) (removeSync s)")
  from devServer_cases [of ctx opts env raw "isFirst s" "removeSync s"] d ds
  have r: "r = (if isFirst s \<or> \<not> addressRunning s then Exited else Undefined)"
    by (simp add: removeSync_def)
  from framed_devServer [of "removeSync s" ctx opts env raw "isFirst s"] ds
  have fr: "firstBuildIsDone s2 = firstBuildIsDone s" "watchCalls s2 = watchCalls s"
    "terminated s2 = (terminated s \<or> r = Exited)"
    by (simp_all add: framed_def keeps_def removeSync_def)
  from c i o h ds r have "snd (computeConfig ctx opts env (Function (Resolves v)) (isFirst s) s) = s2 \<and>
      (\<forall>cfg. fst (computeConfig ctx opts env (Function (Resolves v)) (isFirst s) s) \<noteq> Value cfg)"
    by (auto simp: computeConfig_def loadUserCfg_def normalizeUserCfg_def extendConf_def
        andThen_def)
  with c i assms(2) have "onEnd ctx opts env s = s2"
    by (cases "computeConfig ctx opts env (Function (Resolves v)) (isFirst s) s";
        cases "fst (computeConfig ctx opts env (Function (Resolves v)) (isFirst s) s)")
      (auto simp: onEnd_def)
  with fr r show ?thesis by simp
qed

text \<open>
  C5. When \<open>findClosestOpenPort\<close> throws, whatever the error, \<open>onAddress\<close> reports the
  network warning; then, if no call of \<open>onAddress\<close> has succeeded so far
  (\<open>addressRunning\<close> is false), the process exits; otherwise \<open>onAddress\<close> returns \<open>null\<close> and
  leaves the cache alone, and the caller fails with the network error: fatal when
  \<open>failOnError\<close> is set, a warning otherwise, in both cases without touching the cache. A
  cycle of the watcher that ends in a network failure delivers nothing, and the process
  has exited after it exactly when it was the first build or no negotiation had succeeded
  before. \<open>addressRunning\<close> is set exactly by a successful \<open>onAddress\<close>.
\<close>

theorem probe_failure_handling:
  assumes "findClosestOpenPort env (snd a) (probedHost env a m s) = ProbeThrows e"
  shows "WarnNetwork e \<in> set (events (snd (onAddress env a m s))) \<and>
         (\<not> addressRunning s \<longrightarrow>
            fst (onAddress env a m s) = Exited \<and> terminated (snd (onAddress env a m s)) \<and>
            last (events (snd (onAddress env a m s))) = ProcessExit) \<and>
         (addressRunning s \<longrightarrow>
            fst (onAddress env a m s) = Undefined \<and>
            terminated (snd (onAddress env a m s)) = terminated s \<and>
            address (snd (onAddress env a m s)) = address s) \<and>
         (addressRunning s \<and> verifyAddress opts \<and> modeName ctx = m \<and>
          (\<forall>to. address s \<noteq> Some (a, to)) \<longrightarrow>
            resolveAddress ctx opts env a b s
              = failWith NetworkFailure b (snd (onAddress env a m s)) \<and>
            fst (resolveAddress ctx opts env a b s) = (if b then Exited else Undefined) \<and>
            terminated (snd (resolveAddress ctx opts env a b s)) = (terminated s \<or> b) \<and>
            last (events (snd (resolveAddress ctx opts env a b s)))
              = (if b then Fatal NetworkFailure else Warn NetworkFailure) \<and>
            address (snd (resolveAddress ctx opts env a b s)) = address s) \<and>
         (\<forall>ctx' opts' env' s'.
            cycleFailure ctx' opts' env' s' = Some NetworkFailure \<and> (isFirst s' \<or> isWatching s')
            \<longrightarrow> firstBuildIsDone (onEnd ctx' opts' env' s') = firstBuildIsDone s' \<and>
                watchCalls (onEnd ctx' opts' env' s') = watchCalls s' \<and>
                terminated (onEnd ctx' opts' env' s')
                  = (terminated s' \<or> isFirst s' \<or> \<not> addressRunning s')) \<and>
         (\<forall>env' a' m' s'.
            addressRunning (snd (onAddress env' a' m' s'))
              = (addressRunning s' \<or> (\<exists>t. fst (onAddress env' a' m' s') = Value t)))"
proof -
  let ?s1 = "emit (CallFindClosestOpenPort (snd a) (probedHost env a m s))
             (discoverExternalIP env a m s)"
  have st: "addressRunning ?s1 = addressRunning s" "address ?s1 = address s"
    "terminated ?s1 = terminated s"
    by (simp_all add: emit_def discoverExternalIP_def)
  note oa = onAddress_throws [OF assms]
  note pe = onProbeError_result [of e ?s1]
  have p1: "WarnNetwork e \<in> set (events (snd (onAddress env a m s)))"
    using oa pe by simp
  have p2: "fst (onAddress env a m s) = Exited \<and> terminated (snd (onAddress env a m s)) \<and>
            last (events (snd (onAddress env a m s))) = ProcessExit" if "\<not> addressRunning s"
    using that oa pe st by simp
  have p3: "fst (onAddress env a m s) = Undefined \<and>
            terminated (snd (onAddress env a m s)) = terminated s \<and>
            address (snd (onAddress env a m s)) = address s" if "addressRunning s"
    using that oa pe st by simp
  have p4: "resolveAddress ctx opts env a b s
              = failWith NetworkFailure b (snd (onAddress env a m s)) \<and>
            fst (resolveAddress ctx opts env a b s) = (if b then Exited else Undefined) \<and>
            terminated (snd (resolveAddress ctx opts env a b s)) = (terminated s \<or> b) \<and>
            last (events (snd (resolveAddress ctx opts env a b s)))
              = (if b then Fatal NetworkFailure else Warn NetworkFailure) \<and>
            address (snd (resolveAddress ctx opts env a b s)) = address s"
    if h: "addressRunning s \<and> verifyAddress opts \<and> modeName ctx = m \<and>
          (\<forall>to. address s \<noteq> Some (a, to))"
  proof -
    obtain s2 where s2: "onAddress env a m s = (Undefined, s2)"
      using p3 h by (cases "onAddress env a m s") auto
    with p3 h have f: "terminated s2 = terminated s" "address s2 = address s" by simp_all
    have "resolveAddress ctx opts env a b s = negotiate ctx opts env a b s"
      using h address_miss [of s a ctx opts env b] by blast
    with h s2 have "resolveAddress ctx opts env a b s = failWith NetworkFailure b s2"
      by (simp add: negotiate_def)
    with s2 f show ?thesis
      by (simp add: failWith_def fatal_def warn_def emit_def)
  qed
  have p5: "addressRunning (snd (onAddress env' a' m' s'))
              = (addressRunning s' \<or> (\<exists>t. fst (onAddress env' a' m' s') = Value t))"
    for env' a' m' s'
    by (auto simp: onAddress_def onProbeError_def discoverExternalIP_def emit_def Let_def
        split: probe.splits)
  show ?thesis
    using p1 p2 p3 p4 p5 onEnd_network_failure by blast
qed

theorem probe_failure_handling_witness:
  "findClosestOpenPort (sampleEnv\<lparr>findClosestOpenPort := (\<lambda>port host. ProbeThrows ERROR_NETWORK_PORT_NOT_AVAIL)\<rparr>)
     (Some 9000) (Some ''0.0.0.0'') = ProbeThrows ERROR_NETWORK_PORT_NOT_AVAIL \<and>
   fst (onAddress (sampleEnv\<lparr>findClosestOpenPort := (\<lambda>port host. ProbeThrows ERROR_NETWORK_PORT_NOT_AVAIL)\<rparr>)
     (Some ''0.0.0.0'', Some 9000) Spa initialSession) = Exited \<and>
   terminated (snd (onAddress (sampleEnv\<lparr>findClosestOpenPort := (\<lambda>port host. ProbeThrows ERROR_NETWORK_PORT_NOT_AVAIL)\<rparr>)
     (Some ''0.0.0.0'', Some 9000) Spa initialSession)) \<and>
   fst (onAddress (sampleEnv\<lparr>findClosestOpenPort := (\<lambda>port host. ProbeThrows ERROR_NETWORK_PORT_NOT_AVAIL)\<rparr>)
     (Some ''0.0.0.0'', Some 9000) Spa (initialSession\<lparr>addressRunning := True\<rparr>)) = Undefined \<and>
   resolveAddress sampleCtx sampleOpts
     (sampleEnv\<lparr>findClosestOpenPort := (\<lambda>port host. ProbeThrows ERROR_NETWORK_PORT_NOT_AVAIL)\<rparr>)
     (Some ''0.0.0.0'', Some 9000) False (initialSession\<lparr>addressRunning := True\<rparr>)
     = (Undefined, initialSession\<lparr>addressRunning := True,
          events := [CallFindClosestOpenPort (Some 9000) (Some ''0.0.0.0''),
            WarnNetwork ERROR_NETWORK_PORT_NOT_AVAIL, Warn NetworkFailure]\<rparr>) \<and>
   cycleFailure sampleCtx sampleOpts
     (sampleEnv\<lparr>findClosestOpenPort := (\<lambda>port host. ProbeThrows ERROR_NETWORK_PORT_NOT_AVAIL)\<rparr>)
     (initialSession\<lparr>isFirst := False, isWatching := True, addressRunning := True\<rparr>)
     = Some NetworkFailure \<and>
   \<not> terminated (onEnd sampleCtx sampleOpts
     (sampleEnv\<lparr>findClosestOpenPort := (\<lambda>port host. ProbeThrows ERROR_NETWORK_PORT_NOT_AVAIL)\<rparr>)
     (initialSession\<lparr>isFirst := False, isWatching := True, addressRunning := True\<rparr>)) \<and>
   watchCalls (onEnd sampleCtx sampleOpts
     (sampleEnv\<lparr>findClosestOpenPort := (\<lambda>port host. ProbeThrows ERROR_NETWORK_PORT_NOT_AVAIL)\<rparr>)
     (initialSession\<lparr>isFirst := False, isWatching := True, addressRunning := True\<rparr>)) = []"
proof -
  let ?env = "sampleEnv\<lparr>findClosestOpenPort := (\<lambda>port host. ProbeThrows ERROR_NETWORK_PORT_NOT_AVAIL)\<rparr>"
  let ?a = "(Some ''0.0.0.0'', Some (9000::int))"
  let ?s1 = "initialSession\<lparr>addressRunning := True\<rparr>"
  let ?s2 = "initialSession\<lparr>isFirst := False, isWatching := True, addressRunning := True\<rparr>"
  have pr: "findClosestOpenPort ?env (Some 9000) (Some ''0.0.0.0'') = ProbeThrows ERROR_NETWORK_PORT_NOT_AVAIL"
    by (simp add: sampleEnv_def)
  have h0: "findClosestOpenPort ?env (snd ?a) (probedHost ?env ?a Spa initialSession)
      = ProbeThrows ERROR_NETWORK_PORT_NOT_AVAIL"
    and h1: "findClosestOpenPort ?env (snd ?a) (probedHost ?env ?a Spa ?s1)
      = ProbeThrows ERROR_NETWORK_PORT_NOT_AVAIL"
    by (simp_all add: sampleEnv_def)
  have st: "\<not> addressRunning initialSession" "addressRunning ?s1" "verifyAddress sampleOpts"
    "modeName sampleCtx = Spa" "\<forall>to. address ?s1 \<noteq> Some (?a, to)" "\<not> terminated ?s1"
    "isFirst ?s2 \<or> isWatching ?s2" "\<not> isFirst ?s2" "addressRunning ?s2" "\<not> terminated ?s2"
    "watchCalls ?s2 = []"
    by (simp_all add: initialSession_def sampleOpts_def sampleCtx_def)
  have cf: "cycleFailure sampleCtx sampleOpts ?env ?s2 = Some NetworkFailure"
    by (simp add: cycle_defs sample_defs)
  note i0 = probe_failure_handling [OF h0, where ctx = sampleCtx and opts = sampleOpts and b = False]
  note i1 = probe_failure_handling [OF h1, where ctx = sampleCtx and opts = sampleOpts and b = False]
  have a: "fst (onAddress ?env ?a Spa initialSession) = Exited"
    "terminated (snd (onAddress ?env ?a Spa initialSession))"
    using i0 st(1) by blast+
  have b: "fst (onAddress ?env ?a Spa ?s1) = Undefined"
    using i1 st(2) by blast
  have "resolveAddress sampleCtx sampleOpts ?env ?a False ?s1
      = failWith NetworkFailure False (snd (onAddress ?env ?a Spa ?s1))"
    using i1 st(2,3,4,5) by blast
  then have c: "resolveAddress sampleCtx sampleOpts ?env ?a False ?s1
     = (Undefined, initialSession\<lparr>addressRunning := True,
          events := [CallFindClosestOpenPort (Some 9000) (Some ''0.0.0.0''),
            WarnNetwork ERROR_NETWORK_PORT_NOT_AVAIL, Warn NetworkFailure]\<rparr>)"
    by (simp add: cycle_defs sample_defs)
  have d: "\<not> terminated (onEnd sampleCtx sampleOpts ?env ?s2)"
    "watchCalls (onEnd sampleCtx sampleOpts ?env ?s2) = []"
    using i0 cf st(7,8,9,10,11) by (metis, metis)
  show ?thesis using pr a b c cf d by simp
qed

end
